theory Spec2Isabelle
  imports Main
begin

text \<open>
  The capped record store of the key-value dictionary storage engine,
  \<^verbatim>\<open>src/mongo/db/storage/kv/dictionary/kv_record_store_capped.cpp\<close>: a record store of
  bounded size that evicts its oldest records after every insert, derives the identifiers
  of oplog records from their payload, and hides uncommitted records from forward scans.
  Each member function of \<open>KVRecordStoreCapped\<close> is a function of the same name here, on an
  explicit state; what the file takes from elsewhere is a parameter.
\<close>

section \<open>Values shared with the rest of the server\<close>

text \<open>
  A \<open>RecordId\<close> wraps a 64-bit signed representation. The capped store only compares
  identifiers (\<open>==\<close>, \<open><\<close>, \<open><=\<close>) and never computes with them, so the representation is
  an \<open>int\<close>.
\<close>

type_synonym RecordId = int

text \<open>
  \<open>ErrorCodes::BadValue\<close> is the only error code the capped store names itself; every other
  code reaches it from a collaborator.
\<close>

datatype ErrorCodes = BadValue | OtherErrorCode nat

text \<open>A \<open>Status\<close> that is not OK: its code and its reason.\<close>

datatype Error = Error ErrorCodes string

text \<open>\<open>Status\<close>: \<open>None\<close> is \<open>Status::OK()\<close>. \<open>StatusWith<T>\<close>: \<open>Inl\<close> the failure, \<open>Inr\<close> the value.\<close>

type_synonym Status = "Error option"
type_synonym 'a StatusWith = "Error + 'a"

datatype Direction = FORWARD | BACKWARD

text \<open>
  How a call ends other than by returning: \<open>uassertStatusOK\<close> raises a \<open>UserException\<close>
  holding the status, and \<open>operator->\<close> on an empty \<open>scoped_ptr\<close> aborts.
\<close>

datatype exn = UserException Error | NullPointer

datatype 'a outcome = Return 'a | Throw exn

text \<open>An \<open>OpTime\<close> is a pair of seconds and increment.\<close>

type_synonym OpTime = "nat \<times> nat"

record CollectionOptions =
  options_cappedSize :: int
  options_cappedMaxDocs :: int

text \<open>
  A \<open>DocWriter\<close> knows its size (a \<open>size_t\<close>) and writes itself into a buffer:
  \<open>writeDocument\<close> maps the buffer's bytes before the call to its bytes after it.
\<close>

record DocWriter =
  documentSize :: nat
  writeDocument :: "string \<Rightarrow> string"

section \<open>Collaborators of the capped store\<close>

text \<open>
  The base class \<open>KVRecordStore\<close>, the visibility tracker, the \<open>oploghack\<close> functions, the
  \<open>WriteUnitOfWork\<close> and \<open>Slice\<close> are declared outside
  \<^verbatim>\<open>kv_record_store_capped.cpp\<close>. They are parameters of the model: \<open>'w\<close> is everything
  behind the base class and the operation context (the dictionary, its statistics, the
  recovery unit), \<open>'t\<close> is the state of a \<open>VisibleIdTracker\<close>.

  A record iterator is the list of identifiers it has yet to yield, in the order it yields
  them: \<open>isEOF\<close> is the empty list, \<open>curr\<close> its head, \<open>getNext\<close> returns the head and moves to
  the tail. The capped store deletes only records its iterator has already moved past, so
  the list taken when the iterator is opened is what the cursor goes on to yield.
\<close>

record ('w, 't) collaborators =
  KVRecordStore_insertRecord :: "'w \<Rightarrow> string \<Rightarrow> int \<Rightarrow> bool \<Rightarrow> 'w \<times> RecordId StatusWith"
  KVRecordStore_insertRecordAt :: "'w \<Rightarrow> RecordId \<Rightarrow> string \<Rightarrow> 'w \<times> Status"
  KVRecordStore_deleteRecord :: "'w \<Rightarrow> RecordId \<Rightarrow> 'w"
  KVRecordStore_getIterator :: "'w \<Rightarrow> RecordId option \<Rightarrow> Direction \<Rightarrow> RecordId list"
  dataSize :: "'w \<Rightarrow> int"
  numRecords :: "'w \<Rightarrow> int"
  extractKey :: "string \<Rightarrow> int \<Rightarrow> RecordId StatusWith"
  keyForOptime :: "OpTime \<Rightarrow> RecordId StatusWith"
  NamespaceString_oplog :: "string \<Rightarrow> bool"
  new_OplogIdTracker :: "'t"
  new_CappedIdTracker :: "'t"
  addUncommittedId :: "'t \<Rightarrow> RecordId \<Rightarrow> 't"
  lowestInvisible :: "'t \<Rightarrow> RecordId"
  setIteratorRestriction :: "'t \<Rightarrow> RecordId list \<Rightarrow> RecordId list"
  beginUnitOfWork :: "'w \<Rightarrow> 'w"
  commitUnitOfWork :: "'w \<Rightarrow> 'w"
  endUnitOfWork :: "'w \<Rightarrow> 'w"
  Slice_sized :: "nat \<Rightarrow> string"
  RecordId_invalid :: RecordId

text \<open>
  \<open>KVRecordStore_insertRecordAt\<close> is \<open>KVRecordStore::_insertRecord\<close> (a name cannot start
  with an underscore). \<open>KVRecordStore_getIterator\<close> takes \<open>None\<close> for the default start
  \<open>RecordId()\<close>. \<open>Slice_sized n\<close> is the content of the buffer \<open>Slice(n)\<close> allocates, and
  \<open>RecordId_invalid\<close> is \<open>RecordId().setInvalid()\<close>.
\<close>

text \<open>\<open>Slice(data, len)\<close>: the first \<open>len\<close> bytes at \<open>data\<close>.\<close>

definition Slice :: "string \<Rightarrow> int \<Rightarrow> string" where
  "Slice data len = take (nat len) data"

text \<open>
  A \<open>size_t\<close> passed for an \<open>int\<close> parameter keeps its low 32 bits, read in two's
  complement.
\<close>

definition size_t_to_int :: "nat \<Rightarrow> int" where
  "size_t_to_int n = (int n + 2 ^ 31) mod 2 ^ 32 - 2 ^ 31"

section \<open>The capped store\<close>

text \<open>
  The members of \<open>KVRecordStoreCapped\<close>, named without their leading underscore. \<open>base\<close> is
  the \<open>KVRecordStore\<close> part together with the operation context. The two limits are
  64-bit integers that are only compared, with 64-bit counts and with the \<open>int\<close> length
  of a payload. \<open>cappedDeleteCallback\<close> is \<open>None\<close> for a null pointer; a registered
  callback's \<open>aboutToDeleteCapped\<close> may change \<open>'w\<close> and returns a status.
  \<open>cappedDeleteMutex\<close> is \<open>True\<close> while another thread holds the mutex. \<open>idTracker\<close> is
  \<open>None\<close> for an empty \<open>scoped_ptr\<close>.
\<close>

record ('w, 't) KVRecordStoreCapped =
  base :: "'w"
  cappedMaxSize :: int
  cappedMaxDocs :: int
  cappedDeleteCallback :: "('w \<Rightarrow> RecordId \<Rightarrow> 'w \<times> Status) option"
  cappedDeleteMutex :: bool
  isOplog :: bool
  idTracker :: "'t option"

text \<open>The constructor: \<open>kv\<close> is the freshly constructed base class.\<close>

definition new_KVRecordStoreCapped ::
  "('w, 't) collaborators \<Rightarrow> 'w \<Rightarrow> string \<Rightarrow> CollectionOptions \<Rightarrow> ('w, 't) KVRecordStoreCapped" where
  "new_KVRecordStoreCapped C kv ns options =
     \<lparr> base = kv,
       cappedMaxSize = (if options_cappedSize options \<noteq> 0 then options_cappedSize options else 4096),
       cappedMaxDocs = (if options_cappedMaxDocs options \<noteq> 0 then options_cappedMaxDocs options else - 1),
       cappedDeleteCallback = None,
       cappedDeleteMutex = False,
       isOplog = NamespaceString_oplog C ns,
       idTracker = Some (if NamespaceString_oplog C ns then new_OplogIdTracker C
                         else new_CappedIdTracker C) \<rparr>"

definition needsDelete :: "('w, 't) collaborators \<Rightarrow> ('w, 't) KVRecordStoreCapped \<Rightarrow> bool" where
  "needsDelete C s =
     (if dataSize C (base s) > cappedMaxSize s then True
      else if cappedMaxDocs s \<noteq> - 1 \<and> numRecords C (base s) > cappedMaxDocs s then True
      else False)"

definition deleteRecord ::
  "('w, 't) collaborators \<Rightarrow> ('w, 't) KVRecordStoreCapped \<Rightarrow> RecordId
     \<Rightarrow> ('w, 't) KVRecordStoreCapped \<times> unit outcome" where
  "deleteRecord C s dl =
     (case cappedDeleteCallback s of
        Some aboutToDeleteCapped \<Rightarrow>
          (case aboutToDeleteCapped (base s) dl of
             (w, Some e) \<Rightarrow> (s\<lparr>base := w\<rparr>, Throw (UserException e))
           | (w, None) \<Rightarrow> (s\<lparr>base := KVRecordStore_deleteRecord C w dl\<rparr>, Return ()))
      | None \<Rightarrow> (s\<lparr>base := KVRecordStore_deleteRecord C (base s) dl\<rparr>, Return ()))"

text \<open>
  \<open>getIterator\<close>: the iterator of the base class is a \<open>KVRecordIterator\<close>, so the
  \<open>invariant\<close> on the \<open>dynamic_cast\<close> holds; a forward iterator gets the tracker's restriction.
\<close>

definition getIterator ::
  "('w, 't) collaborators \<Rightarrow> ('w, 't) KVRecordStoreCapped \<Rightarrow> RecordId option \<Rightarrow> Direction
     \<Rightarrow> RecordId list outcome" where
  "getIterator C s start dir =
     (let iter = KVRecordStore_getIterator C (base s) start dir in
      if dir = FORWARD then
        (case idTracker s of
           None \<Rightarrow> Throw NullPointer
         | Some t \<Rightarrow> Return (setIteratorRestriction C t iter))
      else Return iter)"

text \<open>The \<open>for\<close> loop of \<open>deleteAsNeeded\<close>, on the iterator it opened.\<close>

fun deleteAsNeeded_loop ::
  "('w, 't) collaborators \<Rightarrow> ('w, 't) KVRecordStoreCapped \<Rightarrow> RecordId list
     \<Rightarrow> ('w, 't) KVRecordStoreCapped \<times> unit outcome" where
  "deleteAsNeeded_loop C s [] = (s, Return ())"
| "deleteAsNeeded_loop C s (oldest # iter) =
     (if needsDelete C s then
        (case deleteRecord C s oldest of
           (s', Throw e) \<Rightarrow> (s', Throw e)
         | (s', Return _) \<Rightarrow> deleteAsNeeded_loop C s' iter)
      else (s, Return ()))"

definition deleteAsNeeded ::
  "('w, 't) collaborators \<Rightarrow> ('w, 't) KVRecordStoreCapped
     \<Rightarrow> ('w, 't) KVRecordStoreCapped \<times> unit outcome" where
  "deleteAsNeeded C s =
     (if \<not> needsDelete C s then (s, Return ())
      else if cappedDeleteMutex s then (s, Return ())
      else (case getIterator C s None FORWARD of
              Throw e \<Rightarrow> (s, Throw e)
            | Return iter \<Rightarrow> deleteAsNeeded_loop C s iter))"

text \<open>
  \<open>insertRecord\<close>: the write is the inner \<open>case\<close>; it gives \<open>Inl\<close> where the source returns
  an error early and \<open>Inr\<close> where it goes on to register the identifier.
\<close>

definition insertRecord ::
  "('w, 't) collaborators \<Rightarrow> ('w, 't) KVRecordStoreCapped \<Rightarrow> string \<Rightarrow> int \<Rightarrow> bool
     \<Rightarrow> ('w, 't) KVRecordStoreCapped \<times> RecordId StatusWith outcome" where
  "insertRecord C s data len enforceQuota =
     (if len > cappedMaxSize s then
        (s, Return (Inl (Error BadValue ''object to insert exceeds cappedMaxSize'')))
      else
        (case (if isOplog s then
                 (case extractKey C data len of
                    Inl e \<Rightarrow> (s, Inl e)
                  | Inr i \<Rightarrow>
                      (case KVRecordStore_insertRecordAt C (base s) i (Slice data len) of
                         (w, Some e) \<Rightarrow> (s\<lparr>base := w\<rparr>, Inl e)
                       | (w, None) \<Rightarrow> (s\<lparr>base := w\<rparr>, Inr i)))
               else
                 (case KVRecordStore_insertRecord C (base s) data len enforceQuota of
                    (w, r) \<Rightarrow> (s\<lparr>base := w\<rparr>, r))) of
           (s1, Inl e) \<Rightarrow> (s1, Return (Inl e))
         | (s1, Inr i) \<Rightarrow>
             (case idTracker s1 of
                None \<Rightarrow> (s1, Throw NullPointer)
              | Some t \<Rightarrow>
                  (case deleteAsNeeded C (s1\<lparr>idTracker := Some (addUncommittedId C t i)\<rparr>) of
                     (s2, Throw e) \<Rightarrow> (s2, Throw e)
                   | (s2, Return _) \<Rightarrow> (s2, Return (Inr i))))))"

text \<open>
  The \<open>DocWriter\<close> overload: \<open>value.size()\<close> is a \<open>size_t\<close> and the length parameter of the
  other overload an \<open>int\<close>.
\<close>

definition insertRecord_doc ::
  "('w, 't) collaborators \<Rightarrow> ('w, 't) KVRecordStoreCapped \<Rightarrow> DocWriter \<Rightarrow> bool
     \<Rightarrow> ('w, 't) KVRecordStoreCapped \<times> RecordId StatusWith outcome" where
  "insertRecord_doc C s doc enforceQuota =
     (let buf = Slice_sized C (documentSize doc);
          val = writeDocument doc buf
      in insertRecord C s val (size_t_to_int (documentSize doc)) enforceQuota)"

text \<open>
  The \<open>for\<close> loop of \<open>temp_cappedTruncateAfter\<close>. The \<open>WriteUnitOfWork\<close> begins a unit of work
  when it is constructed and ends it when it goes out of scope, at the end of the loop body
  or when \<open>deleteRecord\<close> throws.
\<close>

fun temp_cappedTruncateAfter_loop ::
  "('w, 't) collaborators \<Rightarrow> ('w, 't) KVRecordStoreCapped \<Rightarrow> RecordId \<Rightarrow> bool \<Rightarrow> RecordId list
     \<Rightarrow> ('w, 't) KVRecordStoreCapped \<times> unit outcome" where
  "temp_cappedTruncateAfter_loop C s endLoc inclusive [] = (s, Return ())"
| "temp_cappedTruncateAfter_loop C s endLoc inclusive (loc # iter) =
     (if \<not> inclusive \<and> loc = endLoc then temp_cappedTruncateAfter_loop C s endLoc inclusive iter
      else
        (case deleteRecord C (s\<lparr>base := beginUnitOfWork C (base s)\<rparr>) loc of
           (s', Throw e) \<Rightarrow> (s'\<lparr>base := endUnitOfWork C (base s')\<rparr>, Throw e)
         | (s', Return _) \<Rightarrow>
             temp_cappedTruncateAfter_loop C
               (s'\<lparr>base := endUnitOfWork C (commitUnitOfWork C (base s'))\<rparr>) endLoc inclusive iter))"

definition temp_cappedTruncateAfter ::
  "('w, 't) collaborators \<Rightarrow> ('w, 't) KVRecordStoreCapped \<Rightarrow> RecordId \<Rightarrow> bool
     \<Rightarrow> ('w, 't) KVRecordStoreCapped \<times> unit outcome" where
  "temp_cappedTruncateAfter C s endLoc inclusive =
     (case getIterator C s (Some endLoc) FORWARD of
        Throw e \<Rightarrow> (s, Throw e)
      | Return iter \<Rightarrow> temp_cappedTruncateAfter_loop C s endLoc inclusive iter)"

text \<open>The \<open>for\<close> loop of \<open>oplogStartHack\<close>; \<open>iter->getNext()\<close> is its step.\<close>

fun oplogStartHack_loop :: "RecordId \<Rightarrow> RecordId \<Rightarrow> RecordId \<Rightarrow> RecordId list \<Rightarrow> RecordId" where
  "oplogStartHack_loop invalid startingPosition lowest [] = invalid"
| "oplogStartHack_loop invalid startingPosition lowest (iter_curr # iter) =
     (if iter_curr \<le> startingPosition \<and> iter_curr < lowest then iter_curr
      else oplogStartHack_loop invalid startingPosition lowest iter)"

definition oplogStartHack ::
  "('w, 't) collaborators \<Rightarrow> ('w, 't) KVRecordStoreCapped \<Rightarrow> RecordId \<Rightarrow> RecordId outcome" where
  "oplogStartHack C s startingPosition =
     (case idTracker s of
        None \<Rightarrow> Return (RecordId_invalid C)
      | Some t \<Rightarrow>
          (case getIterator C s (Some startingPosition) BACKWARD of
             Throw e \<Rightarrow> Throw e
           | Return iter \<Rightarrow>
               Return (oplogStartHack_loop (RecordId_invalid C) startingPosition
                         (lowestInvisible C t) iter)))"

definition oplogDiskLocRegister ::
  "('w, 't) collaborators \<Rightarrow> ('w, 't) KVRecordStoreCapped \<Rightarrow> OpTime
     \<Rightarrow> ('w, 't) KVRecordStoreCapped \<times> Status outcome" where
  "oplogDiskLocRegister C s opTime =
     (case keyForOptime C opTime of
        Inl e \<Rightarrow> (s, Return (Some e))
      | Inr loc \<Rightarrow>
          (case idTracker s of
             None \<Rightarrow> (s, Throw NullPointer)
           | Some t \<Rightarrow> (s\<lparr>idTracker := Some (addUncommittedId C t loc)\<rparr>, Return None)))"

section \<open>A reference instance of the collaborators\<close>

text \<open>
  Concrete collaborators, on which the store can be run. The dictionary is an association
  list kept in ascending order of identifier.
\<close>

type_synonym dictionary = "(RecordId \<times> string) list"

text \<open>
  Modelled from the spec: the generic ordered record store's \<open>insert(id?, payload)\<close> of
  section 6, which \<open>KVRecordStore\<close> implements outside this file. A payload written at an
  identifier takes its place in identifier order and replaces what was there.
\<close>

fun dict_put :: "RecordId \<Rightarrow> string \<Rightarrow> dictionary \<Rightarrow> dictionary" where
  "dict_put i v [] = [(i, v)]"
| "dict_put i v ((k, u) # d) =
     (if i < k then (i, v) # (k, u) # d
      else if i = k then (i, v) # d
      else (k, u) # dict_put i v d)"

text \<open>
  Modelled from the spec: identifier assignment by the underlying store (section 3, "for
  the generic capped case the identifier is assigned by the underlying store"), here the
  successor of the greatest identifier present, 1 in an empty store.
\<close>

definition ref_insertRecord ::
  "dictionary \<Rightarrow> string \<Rightarrow> int \<Rightarrow> bool \<Rightarrow> dictionary \<times> RecordId StatusWith" where
  "ref_insertRecord d data len enforceQuota =
     (let i = (if d = [] then 1 else fst (last d) + 1)
      in (dict_put i (Slice data len) d, Inr i))"

text \<open>
  Modelled from the spec: \<open>insert(id, payload)\<close> of the generic ordered record store with
  the identifier given, as the oplog branch calls it; it does not fail.
\<close>

definition ref_insertRecordAt :: "dictionary \<Rightarrow> RecordId \<Rightarrow> string \<Rightarrow> dictionary \<times> Status" where
  "ref_insertRecordAt d i v = (dict_put i v d, None)"

text \<open>Modelled from the spec: \<open>delete(id)\<close> of the generic ordered record store.\<close>

definition ref_deleteRecord :: "dictionary \<Rightarrow> RecordId \<Rightarrow> dictionary" where
  "ref_deleteRecord d i = filter (\<lambda>kv. fst kv \<noteq> i) d"

text \<open>
  Modelled from the spec: \<open>forwardIterator(start)\<close> and \<open>backwardIterator(start)\<close> of the
  generic ordered record store: the identifiers from \<open>start\<close> on, in key order, respectively
  from \<open>start\<close> down, in reverse key order; every identifier when no start is given.
\<close>

definition ref_getIterator :: "dictionary \<Rightarrow> RecordId option \<Rightarrow> Direction \<Rightarrow> RecordId list" where
  "ref_getIterator d start dir =
     (case dir of
        FORWARD \<Rightarrow> filter (\<lambda>k. case start of None \<Rightarrow> True | Some b \<Rightarrow> b \<le> k) (map fst d)
      | BACKWARD \<Rightarrow> rev (filter (\<lambda>k. case start of None \<Rightarrow> True | Some b \<Rightarrow> k \<le> b) (map fst d)))"

text \<open>
  Modelled from the spec: \<open>totalBytes()\<close> of the generic ordered record store, the sum of
  the payload lengths.
\<close>

definition ref_dataSize :: "dictionary \<Rightarrow> int" where
  "ref_dataSize d = int (sum_list (map (\<lambda>kv. length (snd kv)) d))"

text \<open>Modelled from the spec: \<open>totalDocs()\<close> of the generic ordered record store.\<close>

definition ref_numRecords :: "dictionary \<Rightarrow> int" where
  "ref_numRecords d = int (length d)"

text \<open>
  Modelled from the spec: \<open>extractKey(payload)\<close> of the key-derivation collaborator of
  section 6, which \<open>oploghack\<close> implements outside this file. Here the ordering key embedded
  in a payload is its first byte, and an empty payload has none.
\<close>

definition ref_extractKey :: "string \<Rightarrow> int \<Rightarrow> RecordId StatusWith" where
  "ref_extractKey data len =
     (case Slice data len of
        [] \<Rightarrow> Inl (Error BadValue ''no ts field'')
      | c # _ \<Rightarrow> Inr (int (of_char c :: nat)))"

text \<open>
  Modelled from the spec: \<open>keyForOrderingToken(token)\<close> of section 6. Here a token is
  valid when both its halves fit in 31 bits, and gives the identifier with the seconds in
  its high and the increment in its low 32 bits.
\<close>

definition ref_keyForOptime :: "OpTime \<Rightarrow> RecordId StatusWith" where
  "ref_keyForOptime opTime =
     (if fst opTime \<ge> 2 ^ 31 then Inl (Error BadValue ''ts secs too high'')
      else if snd opTime \<ge> 2 ^ 31 then Inl (Error BadValue ''ts inc too high'')
      else Inr (int (fst opTime) * 2 ^ 32 + int (snd opTime)))"

text \<open>
  Modelled from the spec: the state of the Identifier Visibility Tracker of sections 3 and
  4.2, declared in \<^verbatim>\<open>visible_id_tracker.h\<close>: the set of uncommitted identifiers.
\<close>

type_synonym tracker = "RecordId list"

text \<open>
  Modelled from the spec: \<open>addUncommittedId(id)\<close> of section 4.2, which "inserts into the
  pending set".
\<close>

definition ref_addUncommittedId :: "tracker \<Rightarrow> RecordId \<Rightarrow> tracker" where
  "ref_addUncommittedId t i = List.insert i t"

text \<open>
  Modelled from the spec: \<open>lowestInvisible()\<close> of section 4.2, the minimum of the pending
  set, and no restriction (the greatest 64-bit identifier) when the set is empty.
\<close>

definition ref_lowestInvisible :: "tracker \<Rightarrow> RecordId" where
  "ref_lowestInvisible t = foldr min t (2 ^ 63 - 1)"

text \<open>
  Modelled from the spec: \<open>applyIteratorRestriction\<close> of section 4.2 in its generic variant,
  where a forward iterator "skips any identifier present in the uncommitted set or above
  \<open>lowestInvisible\<close>".
\<close>

definition ref_setIteratorRestriction :: "tracker \<Rightarrow> RecordId list \<Rightarrow> RecordId list" where
  "ref_setIteratorRestriction t iter =
     filter (\<lambda>i. \<not> (i \<in> set t \<or> ref_lowestInvisible t < i)) iter"

text \<open>
  Modelled from the spec: the collaborators of section 6 put together. What the spec leaves
  open is fixed here: a unit of work leaves the dictionary as it is, a fresh buffer holds
  zero bytes, the oplog namespaces are those that start with "local.oplog.", both kinds of
  tracker start with nothing uncommitted, and the invalid identifier is \<open>- 2\<close>.
\<close>

definition ref_collaborators :: "(dictionary, tracker) collaborators" where
  "ref_collaborators =
     \<lparr> KVRecordStore_insertRecord = ref_insertRecord,
       KVRecordStore_insertRecordAt = ref_insertRecordAt,
       KVRecordStore_deleteRecord = ref_deleteRecord,
       KVRecordStore_getIterator = ref_getIterator,
       dataSize = ref_dataSize,
       numRecords = ref_numRecords,
       extractKey = ref_extractKey,
       keyForOptime = ref_keyForOptime,
       NamespaceString_oplog = (\<lambda>ns. take 12 ns = ''local.oplog.''),
       new_OplogIdTracker = [],
       new_CappedIdTracker = [],
       addUncommittedId = ref_addUncommittedId,
       lowestInvisible = ref_lowestInvisible,
       setIteratorRestriction = ref_setIteratorRestriction,
       beginUnitOfWork = (\<lambda>d. d),
       commitUnitOfWork = (\<lambda>d. d),
       endUnitOfWork = (\<lambda>d. d),
       Slice_sized = (\<lambda>n. replicate n (CHR 0x00)),
       RecordId_invalid = - 2 \<rparr>"

text \<open>An about-to-delete callback that rejects every deletion.\<close>

definition veto :: "dictionary \<Rightarrow> RecordId \<Rightarrow> dictionary \<times> Status" where
  "veto d dl = (d, Some (Error (OtherErrorCode 1) ''deletion rejected''))"


text \<open>An about-to-delete callback that rejects the deletion of record \<open>k\<close> only.\<close>

definition veto_only :: "RecordId \<Rightarrow> dictionary \<Rightarrow> RecordId \<Rightarrow> dictionary \<times> Status" where
  "veto_only k d dl =
     (d, if dl = k then Some (Error (OtherErrorCode 1) ''deletion rejected'') else None)"

text \<open>
  A capped store of at most 5 bytes and any number of documents, with a tracker installed:
  \<open>d\<close> is its dictionary, \<open>cb\<close> its callback, \<open>locked\<close> whether another thread is evicting,
  \<open>t\<close> its uncommitted identifiers.
\<close>

definition sample_store ::
  "dictionary \<Rightarrow> (dictionary \<Rightarrow> RecordId \<Rightarrow> dictionary \<times> Status) option \<Rightarrow> bool \<Rightarrow> bool \<Rightarrow> tracker
     \<Rightarrow> (dictionary, tracker) KVRecordStoreCapped" where
  "sample_store d cb locked oplog t =
     \<lparr> base = d,
       cappedMaxSize = 5,
       cappedMaxDocs = - 1,
       cappedDeleteCallback = cb,
       cappedDeleteMutex = locked,
       isOplog = oplog,
       idTracker = Some t \<rparr>"

text \<open>
  The reference collaborators with a base store that refuses every write: with "quota
  exceeded" when it assigns the identifier, with "dictionary is read-only" at a given one.
\<close>

definition failing_collaborators :: "(dictionary, tracker) collaborators" where
  "failing_collaborators =
     ref_collaborators
       \<lparr> KVRecordStore_insertRecord :=
           (\<lambda>d data len enforceQuota. (d, Inl (Error (OtherErrorCode 2) ''quota exceeded''))),
         KVRecordStore_insertRecordAt :=
           (\<lambda>d i v. (d, Some (Error (OtherErrorCode 3) ''dictionary is read-only''))) \<rparr>"

section \<open>Sequences of deletions\<close>

text \<open>
  Deleting the records of a list one after the other through \<open>deleteRecord\<close>, up to the
  first deletion that throws.
\<close>

fun deleteRecords ::
  "('w, 't) collaborators \<Rightarrow> ('w, 't) KVRecordStoreCapped \<Rightarrow> RecordId list
     \<Rightarrow> ('w, 't) KVRecordStoreCapped \<times> unit outcome" where
  "deleteRecords C s [] = (s, Return ())"
| "deleteRecords C s (dl # dls) =
     (case deleteRecord C s dl of
        (s', Throw e) \<Rightarrow> (s', Throw e)
      | (s', Return _) \<Rightarrow> deleteRecords C s' dls)"

text \<open>
  The same with each deletion in a unit of work of its own: begun before the deletion,
  committed after it, and ended without a commit when the deletion throws.
\<close>

fun deleteRecords_inUnitsOfWork ::
  "('w, 't) collaborators \<Rightarrow> ('w, 't) KVRecordStoreCapped \<Rightarrow> RecordId list
     \<Rightarrow> ('w, 't) KVRecordStoreCapped \<times> unit outcome" where
  "deleteRecords_inUnitsOfWork C s [] = (s, Return ())"
| "deleteRecords_inUnitsOfWork C s (dl # dls) =
     (case deleteRecord C (s\<lparr>base := beginUnitOfWork C (base s)\<rparr>) dl of
        (s', Throw e) \<Rightarrow> (s'\<lparr>base := endUnitOfWork C (base s')\<rparr>, Throw e)
      | (s', Return _) \<Rightarrow>
          deleteRecords_inUnitsOfWork C
            (s'\<lparr>base := endUnitOfWork C (commitUnitOfWork C (base s'))\<rparr>) dls)"

text \<open>
  The \<open>DocWriter\<close> overload as the specification words it: serialize the document into a
  buffer of \<open>documentSize()\<close> bytes, then insert that buffer, with its size for the
  length, through the \<open>(data, len)\<close> overload.
\<close>

definition serialize :: "('w, 't) collaborators \<Rightarrow> DocWriter \<Rightarrow> string" where
  "serialize C doc = writeDocument doc (Slice_sized C (documentSize doc))"

definition insertRecord_doc_spec ::
  "('w, 't) collaborators \<Rightarrow> ('w, 't) KVRecordStoreCapped \<Rightarrow> DocWriter \<Rightarrow> bool
     \<Rightarrow> ('w, 't) KVRecordStoreCapped \<times> RecordId StatusWith outcome" where
  "insertRecord_doc_spec C s doc enforceQuota =
     insertRecord C s (serialize C doc) (int (documentSize doc)) enforceQuota"

section \<open>Frame lemmas\<close>

lemma ref_collaborators_simps [simp]:
  "KVRecordStore_insertRecord ref_collaborators = ref_insertRecord"
  "KVRecordStore_insertRecordAt ref_collaborators = ref_insertRecordAt"
  "KVRecordStore_deleteRecord ref_collaborators = ref_deleteRecord"
  "KVRecordStore_getIterator ref_collaborators = ref_getIterator"
  "dataSize ref_collaborators = ref_dataSize"
  "numRecords ref_collaborators = ref_numRecords"
  "extractKey ref_collaborators = ref_extractKey"
  "keyForOptime ref_collaborators = ref_keyForOptime"
  "NamespaceString_oplog ref_collaborators = (\<lambda>ns. take 12 ns = ''local.oplog.'')"
  "new_OplogIdTracker ref_collaborators = []"
  "new_CappedIdTracker ref_collaborators = []"
  "addUncommittedId ref_collaborators = ref_addUncommittedId"
  "lowestInvisible ref_collaborators = ref_lowestInvisible"
  "setIteratorRestriction ref_collaborators = ref_setIteratorRestriction"
  "beginUnitOfWork ref_collaborators = (\<lambda>d. d)"
  "commitUnitOfWork ref_collaborators = (\<lambda>d. d)"
  "endUnitOfWork ref_collaborators = (\<lambda>d. d)"
  "Slice_sized ref_collaborators = (\<lambda>n. replicate n (CHR 0x00))"
  "RecordId_invalid ref_collaborators = - 2"
  by (simp_all add: ref_collaborators_def)

lemma sample_store_simps [simp]:
  "base (sample_store d cb locked oplog t) = d"
  "cappedMaxSize (sample_store d cb locked oplog t) = 5"
  "cappedMaxDocs (sample_store d cb locked oplog t) = - 1"
  "cappedDeleteCallback (sample_store d cb locked oplog t) = cb"
  "cappedDeleteMutex (sample_store d cb locked oplog t) = locked"
  "isOplog (sample_store d cb locked oplog t) = oplog"
  "idTracker (sample_store d cb locked oplog t) = Some t"
  "(sample_store d cb locked oplog t)\<lparr>base := d'\<rparr> = sample_store d' cb locked oplog t"
  "(sample_store d cb locked oplog t)\<lparr>idTracker := Some t'\<rparr> = sample_store d cb locked oplog t'"
  by (simp_all add: sample_store_def)

lemma failing_collaborators_simps [simp]:
  "KVRecordStore_insertRecord failing_collaborators =
     (\<lambda>d data len enforceQuota. (d, Inl (Error (OtherErrorCode 2) ''quota exceeded'')))"
  "KVRecordStore_insertRecordAt failing_collaborators =
     (\<lambda>d i v. (d, Some (Error (OtherErrorCode 3) ''dictionary is read-only'')))"
  "extractKey failing_collaborators = ref_extractKey"
  by (simp_all add: failing_collaborators_def)

lemmas ref_run =
  insertRecord_def deleteAsNeeded_def needsDelete_def getIterator_def deleteRecord_def
  temp_cappedTruncateAfter_def oplogStartHack_def oplogDiskLocRegister_def Slice_def
  ref_insertRecord_def ref_insertRecordAt_def ref_deleteRecord_def ref_getIterator_def
  ref_dataSize_def ref_numRecords_def ref_extractKey_def ref_keyForOptime_def
  ref_addUncommittedId_def ref_lowestInvisible_def ref_setIteratorRestriction_def veto_def
  veto_only_def

lemma map_of_ref_deleteRecord: "map_of (ref_deleteRecord d j) = (map_of d)(j := None)"
  by (induction d) (auto simp: ref_deleteRecord_def)

lemma size_t_to_int_small: "n < 2 ^ 31 \<Longrightarrow> size_t_to_int n = int n"
proof -
  assume "n < 2 ^ 31"
  then have "int n < 2 ^ 31" by (metis of_nat_less_iff of_nat_numeral of_nat_power)
  then have "(int n + 2 ^ 31) mod 2 ^ 32 = int n + 2 ^ 31"
    by (intro mod_pos_pos_trivial) simp_all
  then show ?thesis by (simp add: size_t_to_int_def)
qed

lemma deleteRecord_frame:
  "fst (deleteRecord C s dl) = s\<lparr>base := base (fst (deleteRecord C s dl))\<rparr>"
  by (simp add: deleteRecord_def split: option.splits prod.splits)

lemma deleteRecord_callback: "cappedDeleteCallback (fst (deleteRecord C s dl)) = cappedDeleteCallback s"
proof -
  have "cappedDeleteCallback (fst (deleteRecord C s dl)) =
        cappedDeleteCallback (s\<lparr>base := base (fst (deleteRecord C s dl))\<rparr>)"
    using deleteRecord_frame [of C s dl] by (rule arg_cong)
  then show ?thesis by simp
qed

lemma deleteAsNeeded_loop_frame:
  "fst (deleteAsNeeded_loop C s iter) = s\<lparr>base := base (fst (deleteAsNeeded_loop C s iter))\<rparr>"
proof (induction iter arbitrary: s)
  case Nil
  show ?case by simp
next
  case (Cons oldest iter)
  obtain s' r where d: "deleteRecord C s oldest = (s', r)"
    by (cases "deleteRecord C s oldest")
  have f: "s' = s\<lparr>base := base s'\<rparr>"
    using deleteRecord_frame [of C s oldest] d by simp
  show ?case
  proof (cases r)
    case (Throw e)
    then show ?thesis using d f by simp
  next
    case (Return u)
    have "fst (deleteAsNeeded_loop C s' iter) =
          s'\<lparr>base := base (fst (deleteAsNeeded_loop C s' iter))\<rparr>"
      by (rule Cons.IH)
    then have "fst (deleteAsNeeded_loop C s' iter) =
          s\<lparr>base := base (fst (deleteAsNeeded_loop C s' iter))\<rparr>"
      using f by (metis KVRecordStoreCapped.update_convs(1) KVRecordStoreCapped.surjective)
    then show ?thesis using d Return by simp
  qed
qed

lemma deleteAsNeeded_frame:
  "fst (deleteAsNeeded C s) = s\<lparr>base := base (fst (deleteAsNeeded C s))\<rparr>"
  using deleteAsNeeded_loop_frame [of C s]
  by (simp add: deleteAsNeeded_def split: outcome.splits)

lemma deleteAsNeeded_idTracker: "idTracker (fst (deleteAsNeeded C s)) = idTracker s"
proof -
  have "idTracker (fst (deleteAsNeeded C s)) =
        idTracker (s\<lparr>base := base (fst (deleteAsNeeded C s))\<rparr>)"
    using deleteAsNeeded_frame [of C s] by (rule arg_cong)
  then show ?thesis by simp
qed

lemma insertRecord_registered:
  assumes "idTracker s = Some t"
    and "deleteAsNeeded C (s\<lparr>base := w, idTracker := Some (addUncommittedId C t i)\<rparr>) = (s', r)"
  shows "idTracker s' = Some (addUncommittedId C t i)"
  using deleteAsNeeded_idTracker [of C "s\<lparr>base := w, idTracker := Some (addUncommittedId C t i)\<rparr>"]
    assms
  by simp

lemma insertRecord_written:
  assumes "\<not> len > cappedMaxSize s" and "idTracker s = Some t"
    and "isOplog s \<and> extractKey C data len = Inr i \<and>
            KVRecordStore_insertRecordAt C (base s) i (Slice data len) = (w, None) \<or>
          \<not> isOplog s \<and> KVRecordStore_insertRecord C (base s) data len enforceQuota = (w, Inr i)"
  shows "insertRecord C s data len enforceQuota =
              (case deleteAsNeeded C (s\<lparr>base := w, idTracker := Some (addUncommittedId C t i)\<rparr>) of
                 (s', Return u) \<Rightarrow> (s', Return (Inr i))
               | (s', Throw x) \<Rightarrow> (s', Throw x))"
  using assms by (cases "isOplog s") (simp_all add: insertRecord_def)

lemma insertRecord_written_idTracker:
  assumes "\<not> len > cappedMaxSize s" and "idTracker s = Some t"
    and "isOplog s \<and> extractKey C data len = Inr i \<and>
            KVRecordStore_insertRecordAt C (base s) i (Slice data len) = (w, None) \<or>
          \<not> isOplog s \<and> KVRecordStore_insertRecord C (base s) data len enforceQuota = (w, Inr i)"
  shows "idTracker (fst (insertRecord C s data len enforceQuota)) = Some (addUncommittedId C t i)"
proof -
  let ?s1 = "s\<lparr>base := w, idTracker := Some (addUncommittedId C t i)\<rparr>"
  obtain s' r where d: "deleteAsNeeded C ?s1 = (s', r)"
    by (cases "deleteAsNeeded C ?s1")
  have "idTracker s' = Some (addUncommittedId C t i)"
    by (rule insertRecord_registered [OF assms(2) d])
  moreover have "fst (insertRecord C s data len enforceQuota) = s'"
    using insertRecord_written [OF assms] d by (cases r) simp_all
  ultimately show ?thesis by simp
qed

lemma deleteAsNeeded_loop_prefix:
  "\<exists>n\<le>length iter.
     deleteAsNeeded_loop C s iter = deleteRecords C s (take n iter) \<and>
     (\<forall>k<n. needsDelete C (fst (deleteRecords C s (take k iter))) \<and>
             snd (deleteRecords C s (take k iter)) = Return ()) \<and>
     (snd (deleteAsNeeded_loop C s iter) = Return () \<longrightarrow>
        n = length iter \<or> \<not> needsDelete C (fst (deleteAsNeeded_loop C s iter)))"
proof (induction iter arbitrary: s)
  case Nil
  show ?case by simp
next
  case (Cons oldest iter)
  show ?case
  proof (cases "needsDelete C s")
    case False
    then show ?thesis by (intro exI [of _ 0]) simp
  next
    case True
    obtain s' r where d: "deleteRecord C s oldest = (s', r)"
      by (cases "deleteRecord C s oldest")
    show ?thesis
    proof (cases r)
      case (Throw e)
      then show ?thesis using True d by (intro exI [of _ 1]) simp
    next
      case (Return u)
      from Cons.IH [of s'] obtain n where n: "n \<le> length iter"
        "deleteAsNeeded_loop C s' iter = deleteRecords C s' (take n iter)"
        "\<forall>k<n. needsDelete C (fst (deleteRecords C s' (take k iter))) \<and>
               snd (deleteRecords C s' (take k iter)) = Return ()"
        "snd (deleteAsNeeded_loop C s' iter) = Return () \<longrightarrow>
           n = length iter \<or> \<not> needsDelete C (fst (deleteAsNeeded_loop C s' iter))"
        by blast
      have step: "\<And>k. deleteRecords C s (take (Suc k) (oldest # iter)) =
                      deleteRecords C s' (take k iter)"
        using d Return by simp
      have earlier: "\<forall>k<Suc n. needsDelete C (fst (deleteRecords C s (take k (oldest # iter)))) \<and>
               snd (deleteRecords C s (take k (oldest # iter))) = Return ()"
      proof (intro allI impI)
        fix k assume "k < Suc n"
        show "needsDelete C (fst (deleteRecords C s (take k (oldest # iter)))) \<and>
               snd (deleteRecords C s (take k (oldest # iter))) = Return ()"
        proof (cases k)
          case 0
          then show ?thesis using True by simp
        next
          case (Suc j)
          then have "j < n" using \<open>k < Suc n\<close> by simp
          then show ?thesis using n(3) Suc step by simp
        qed
      qed
      have loop: "deleteAsNeeded_loop C s (oldest # iter) = deleteAsNeeded_loop C s' iter"
        using True d Return by simp
      show ?thesis
        apply (rule exI [of _ "Suc n"])
        using n(1) n(2) n(4) earlier loop step by simp
    qed
  qed
qed

section \<open>A store keeps its tracker\<close>

text \<open>
  The constructor installs a tracker and no operation removes it, so the stores an
  operation can meet have \<open>idTracker s = Some t\<close>.
\<close>

lemma new_KVRecordStoreCapped_idTracker:
  "idTracker (new_KVRecordStoreCapped C kv ns options) \<noteq> None"
  by (simp add: new_KVRecordStoreCapped_def)

lemma deleteRecord_idTracker: "idTracker (fst (deleteRecord C s dl)) = idTracker s"
proof -
  have "idTracker (fst (deleteRecord C s dl)) =
        idTracker (s\<lparr>base := base (fst (deleteRecord C s dl))\<rparr>)"
    using deleteRecord_frame [of C s dl] by (rule arg_cong)
  then show ?thesis by simp
qed

lemma insertRecord_keeps_idTracker:
  assumes "idTracker s \<noteq> None"
  shows "idTracker (fst (insertRecord C s data len enforceQuota)) \<noteq> None"
proof (cases "len > cappedMaxSize s")
  case True
  then show ?thesis using assms by (simp add: insertRecord_def)
next
  case False
  obtain t where t: "idTracker s = Some t" using assms by blast
  have reg: "\<And>w i. idTracker (fst (deleteAsNeeded C
      (s\<lparr>base := w, idTracker := Some (addUncommittedId C t i)\<rparr>))) \<noteq> None"
    by (simp add: deleteAsNeeded_idTracker)
  show ?thesis
  proof (cases "isOplog s")
    case True
    show ?thesis
    proof (cases "extractKey C data len")
      case (Inl e)
      then show ?thesis using False True assms by (simp add: insertRecord_def)
    next
      case (Inr i)
      obtain w st where wr: "KVRecordStore_insertRecordAt C (base s) i (Slice data len) = (w, st)"
        by (cases "KVRecordStore_insertRecordAt C (base s) i (Slice data len)")
      show ?thesis
      proof (cases st)
        case (Some e)
        then show ?thesis using False True Inr wr assms by (simp add: insertRecord_def)
      next
        case None
        then show ?thesis
          using False True Inr wr t reg [where w = w and i = i]
          by (simp add: insertRecord_def split: prod.splits outcome.splits) (metis fst_conv)
      qed
    qed
  next
    case oplog: False
    obtain w r where wr: "KVRecordStore_insertRecord C (base s) data len enforceQuota = (w, r)"
      by (cases "KVRecordStore_insertRecord C (base s) data len enforceQuota")
    show ?thesis
    proof (cases r)
      case (Inl e)
      then show ?thesis using False oplog wr assms by (simp add: insertRecord_def)
    next
      case (Inr i)
      then show ?thesis
        using False oplog wr t reg [where w = w and i = i]
        by (simp add: insertRecord_def split: prod.splits outcome.splits) (metis fst_conv)
    qed
  qed
qed

lemma oplogDiskLocRegister_keeps_idTracker:
  assumes "idTracker s \<noteq> None"
  shows "idTracker (fst (oplogDiskLocRegister C s opTime)) \<noteq> None"
  using assms by (auto simp: oplogDiskLocRegister_def split: sum.splits option.splits)

lemma temp_cappedTruncateAfter_loop_idTracker:
  "idTracker (fst (temp_cappedTruncateAfter_loop C s endLoc inclusive iter)) = idTracker s"
proof (induction iter arbitrary: s)
  case Nil
  show ?case by simp
next
  case (Cons loc iter)
  let ?s0 = "s\<lparr>base := beginUnitOfWork C (base s)\<rparr>"
  obtain s' r where d: "deleteRecord C ?s0 loc = (s', r)"
    by (cases "deleteRecord C ?s0 loc")
  have t': "idTracker s' = idTracker s"
    using deleteRecord_idTracker [of C ?s0 loc] d by simp
  show ?case
  proof (cases "\<not> inclusive \<and> loc = endLoc")
    case True
    then show ?thesis using Cons.IH [of s] by simp
  next
    case False
    show ?thesis
    proof (cases r)
      case (Throw e)
      then show ?thesis using False d t' by auto
    next
      case (Return u)
      then show ?thesis
        using False d t' Cons.IH [of "s'\<lparr>base := endUnitOfWork C (commitUnitOfWork C (base s'))\<rparr>"]
        by auto
    qed
  qed
qed

lemma temp_cappedTruncateAfter_idTracker:
  "idTracker (fst (temp_cappedTruncateAfter C s endLoc inclusive)) = idTracker s"
  by (simp add: temp_cappedTruncateAfter_def temp_cappedTruncateAfter_loop_idTracker
      split: outcome.splits)

section \<open>Insertion\<close>

text \<open>
  C1, as amended. For a payload that fits and a store with its tracker installed:
  in oplog mode the identifier is the one \<open>extractKey\<close> derives from the payload, and when
  the derivation fails insert returns that error and the store is unchanged; an error of
  the base store's write (at the derived identifier, or in generic mode of its own
  \<open>insertRecord\<close>) is returned as it is, with nothing registered; after a successful write
  the identifier is registered as uncommitted, then \<open>deleteAsNeeded\<close> runs on the store so
  registered, and the identifier is returned if that pass returns, while an exception of
  the pass leaves insert in its place. The registration is still there after the pass.
\<close>

theorem insertRecord_steps:
  assumes "\<not> len > cappedMaxSize s" and "idTracker s = Some t"
  shows "(isOplog s \<and> extractKey C data len = Inl e \<longrightarrow>
            insertRecord C s data len enforceQuota = (s, Return (Inl e))) \<and>
         (isOplog s \<and> extractKey C data len = Inr i \<and>
            KVRecordStore_insertRecordAt C (base s) i (Slice data len) = (w, Some e) \<longrightarrow>
            insertRecord C s data len enforceQuota = (s\<lparr>base := w\<rparr>, Return (Inl e))) \<and>
         (\<not> isOplog s \<and> KVRecordStore_insertRecord C (base s) data len enforceQuota = (w, Inl e) \<longrightarrow>
            insertRecord C s data len enforceQuota = (s\<lparr>base := w\<rparr>, Return (Inl e))) \<and>
         (isOplog s \<and> extractKey C data len = Inr i \<and>
            KVRecordStore_insertRecordAt C (base s) i (Slice data len) = (w, None) \<or>
          \<not> isOplog s \<and> KVRecordStore_insertRecord C (base s) data len enforceQuota = (w, Inr i) \<longrightarrow>
            insertRecord C s data len enforceQuota =
              (case deleteAsNeeded C (s\<lparr>base := w, idTracker := Some (addUncommittedId C t i)\<rparr>) of
                 (s', Return u) \<Rightarrow> (s', Return (Inr i))
               | (s', Throw x) \<Rightarrow> (s', Throw x)) \<and>
            idTracker (fst (insertRecord C s data len enforceQuota)) = Some (addUncommittedId C t i))"
proof (intro conjI impI)
  show "isOplog s \<and> extractKey C data len = Inl e \<Longrightarrow>
            insertRecord C s data len enforceQuota = (s, Return (Inl e))"
    using assms by (simp add: insertRecord_def)
  show "isOplog s \<and> extractKey C data len = Inr i \<and>
            KVRecordStore_insertRecordAt C (base s) i (Slice data len) = (w, Some e) \<Longrightarrow>
            insertRecord C s data len enforceQuota = (s\<lparr>base := w\<rparr>, Return (Inl e))"
    using assms by (simp add: insertRecord_def)
  show "\<not> isOplog s \<and> KVRecordStore_insertRecord C (base s) data len enforceQuota = (w, Inl e) \<Longrightarrow>
            insertRecord C s data len enforceQuota = (s\<lparr>base := w\<rparr>, Return (Inl e))"
    using assms by (simp add: insertRecord_def)
next
  assume a: "isOplog s \<and> extractKey C data len = Inr i \<and>
            KVRecordStore_insertRecordAt C (base s) i (Slice data len) = (w, None) \<or>
          \<not> isOplog s \<and> KVRecordStore_insertRecord C (base s) data len enforceQuota = (w, Inr i)"
  show "insertRecord C s data len enforceQuota =
              (case deleteAsNeeded C (s\<lparr>base := w, idTracker := Some (addUncommittedId C t i)\<rparr>) of
                 (s', Return u) \<Rightarrow> (s', Return (Inr i))
               | (s', Throw x) \<Rightarrow> (s', Throw x))"
    by (rule insertRecord_written [OF assms a])
  show "idTracker (fst (insertRecord C s data len enforceQuota)) = Some (addUncommittedId C t i)"
    by (rule insertRecord_written_idTracker [OF assms a])
qed

text \<open>
  The four cases on the reference collaborators: a generic insert that evicts record 1 and
  returns the new identifier 2; an oplog insert of an empty payload, from which no key can
  be extracted; a generic and an oplog insert into a base store that refuses the write.
\<close>

theorem insertRecord_steps_witness:
  "\<not> 3 > cappedMaxSize (sample_store [(1, ''aaaa'')] None False False []) \<and>
   idTracker (sample_store [(1, ''aaaa'')] None False False []) = Some [] \<and>
   \<not> isOplog (sample_store [(1, ''aaaa'')] None False False []) \<and>
   KVRecordStore_insertRecord ref_collaborators [(1, ''aaaa'')] ''bbb'' 3 False =
     ([(1, ''aaaa''), (2, ''bbb'')], Inr 2) \<and>
   insertRecord ref_collaborators (sample_store [(1, ''aaaa'')] None False False []) ''bbb'' 3 False =
     (sample_store [(2, ''bbb'')] None False False [2], Return (Inr 2)) \<and>
   isOplog (sample_store [(1, ''aaaa'')] None False True []) \<and>
   extractKey ref_collaborators '''' 0 = Inl (Error BadValue ''no ts field'') \<and>
   insertRecord ref_collaborators (sample_store [(1, ''aaaa'')] None False True []) '''' 0 False =
     (sample_store [(1, ''aaaa'')] None False True [], Return (Inl (Error BadValue ''no ts field''))) \<and>
   KVRecordStore_insertRecord failing_collaborators [(1, ''aaaa'')] ''bbb'' 3 False =
     ([(1, ''aaaa'')], Inl (Error (OtherErrorCode 2) ''quota exceeded'')) \<and>
   insertRecord failing_collaborators (sample_store [(1, ''aaaa'')] None False False []) ''bbb'' 3 False =
     (sample_store [(1, ''aaaa'')] None False False [],
      Return (Inl (Error (OtherErrorCode 2) ''quota exceeded''))) \<and>
   extractKey failing_collaborators ''cc'' 2 = Inr 99 \<and>
   KVRecordStore_insertRecordAt failing_collaborators [(1, ''aaaa'')] 99 (Slice ''cc'' 2) =
     ([(1, ''aaaa'')], Some (Error (OtherErrorCode 3) ''dictionary is read-only'')) \<and>
   insertRecord failing_collaborators (sample_store [(1, ''aaaa'')] None False True []) ''cc'' 2 False =
     (sample_store [(1, ''aaaa'')] None False True [],
      Return (Inl (Error (OtherErrorCode 3) ''dictionary is read-only'')))"
  using
    insertRecord_steps [where C = ref_collaborators and len = 3 and data = "''bbb''"
      and s = "sample_store [(1, ''aaaa'')] None False False []" and t = "[]"
      and enforceQuota = False and i = 2 and w = "[(1, ''aaaa''), (2, ''bbb'')]"]
    insertRecord_steps [where C = ref_collaborators and len = 0 and data = "''''"
      and s = "sample_store [(1, ''aaaa'')] None False True []" and t = "[]"
      and enforceQuota = False and e = "Error BadValue ''no ts field''"]
    insertRecord_steps [where C = failing_collaborators and len = 3 and data = "''bbb''"
      and s = "sample_store [(1, ''aaaa'')] None False False []" and t = "[]"
      and enforceQuota = False and w = "[(1, ''aaaa'')]"
      and e = "Error (OtherErrorCode 2) ''quota exceeded''"]
    insertRecord_steps [where C = failing_collaborators and len = 2 and data = "''cc''"
      and s = "sample_store [(1, ''aaaa'')] None False True []" and t = "[]"
      and enforceQuota = False and w = "[(1, ''aaaa'')]" and i = 99
      and e = "Error (OtherErrorCode 3) ''dictionary is read-only''"]
  by (simp add: ref_run)

text \<open>
  The claim as it was stated fails where the eviction pass throws. In oplog mode, a 2-byte
  payload with key 99 is written into a 5-byte store that holds the 4-byte record 1, and 99
  is registered; the pass must evict record 1, the callback rejects that, and insert ends
  with the \<open>UserException\<close> instead of returning 99.
\<close>

theorem insertRecord_steps_counterexample:
  "extractKey ref_collaborators ''cc'' 2 = Inr 99 \<and>
   KVRecordStore_insertRecordAt ref_collaborators [(1, ''aaaa'')] 99 (Slice ''cc'' 2) =
     ([(1, ''aaaa''), (99, ''cc'')], None) \<and>
   insertRecord ref_collaborators (sample_store [(1, ''aaaa'')] (Some veto) False True []) ''cc'' 2 False =
     (sample_store [(1, ''aaaa''), (99, ''cc'')] (Some veto) False True [99],
      Throw (UserException (Error (OtherErrorCode 1) ''deletion rejected''))) \<and>
   snd (insertRecord ref_collaborators (sample_store [(1, ''aaaa'')] (Some veto) False True [])
          ''cc'' 2 False) \<noteq> Return (Inr 99)"
  by (simp add: ref_run)

section \<open>Rejecting an oversized payload\<close>

text \<open>
  C2. A payload whose length exceeds \<open>cappedMaxSize\<close> is refused with \<open>BadValue\<close>, "object to
  insert exceeds cappedMaxSize", and the store is left as it was: the base store (its data
  size and record count), the tracker and every other member are unchanged.
\<close>

theorem insertRecord_too_large:
  "len > cappedMaxSize s \<Longrightarrow>
     insertRecord C s data len enforceQuota =
       (s, Return (Inl (Error BadValue ''object to insert exceeds cappedMaxSize'')))"
  by (simp add: insertRecord_def)

theorem insertRecord_too_large_witness:
  "(6::int) > cappedMaxSize (sample_store [(1, ''aaaa'')] None False False []) \<and>
   insertRecord ref_collaborators (sample_store [(1, ''aaaa'')] None False False []) ''bbbbbb'' 6 True =
     (sample_store [(1, ''aaaa'')] None False False [],
      Return (Inl (Error BadValue ''object to insert exceeds cappedMaxSize'')))"
  using insertRecord_too_large [where len = 6 and C = ref_collaborators
      and s = "sample_store [(1, ''aaaa'')] None False False []"
      and data = "''bbbbbb''" and enforceQuota = True]
  by simp

section \<open>A failed eviction pass after an insert\<close>

lemma deleteRecord_keeps_record:
  assumes del: "\<forall>w j. recs (KVRecordStore_deleteRecord C w j) = (recs w)(j := None)"
    and quiet: "\<forall>cb w j. cappedDeleteCallback s = Some cb \<longrightarrow> recs (fst (cb w j)) = recs w"
    and other: "dl \<noteq> i"
  shows "recs (base (fst (deleteRecord C s dl))) i = recs (base s) i"
proof (cases "cappedDeleteCallback s")
  case None
  then show ?thesis using del other by (simp add: deleteRecord_def)
next
  case (Some cb)
  obtain w r where c: "cb (base s) dl = (w, r)"
    by (cases "cb (base s) dl")
  have "recs w = recs (base s)"
    using quiet Some c by (metis fst_conv)
  then show ?thesis
    using Some c del other by (cases r) (simp_all add: deleteRecord_def)
qed

lemma deleteAsNeeded_loop_keeps_record:
  assumes del: "\<forall>w j. recs (KVRecordStore_deleteRecord C w j) = (recs w)(j := None)"
    and quiet: "\<forall>cb w j. cappedDeleteCallback s = Some cb \<longrightarrow> recs (fst (cb w j)) = recs w"
    and hidden: "i \<notin> set iter"
  shows "recs (base (fst (deleteAsNeeded_loop C s iter))) i = recs (base s) i"
  using quiet hidden
proof (induction iter arbitrary: s)
  case Nil
  show ?case by simp
next
  case (Cons oldest iter)
  obtain s' r where d: "deleteRecord C s oldest = (s', r)"
    by (cases "deleteRecord C s oldest")
  have other: "oldest \<noteq> i" and rest: "i \<notin> set iter"
    using Cons.prems(2) by auto
  have kept: "recs (base s') i = recs (base s) i"
    using deleteRecord_keeps_record [OF del Cons.prems(1) other] d by simp
  have quiet': "\<forall>cb w j. cappedDeleteCallback s' = Some cb \<longrightarrow> recs (fst (cb w j)) = recs w"
    using Cons.prems(1) deleteRecord_callback [of C s oldest] d by simp
  show ?case
  proof (cases "needsDelete C s")
    case False
    then show ?thesis by simp
  next
    case True
    show ?thesis
    proof (cases r)
      case (Throw x)
      then show ?thesis using True d kept by simp
    next
      case (Return u)
      then show ?thesis using True d kept Cons.IH [OF quiet' rest] by simp
    qed
  qed
qed

lemma deleteAsNeeded_keeps_record:
  assumes del: "\<forall>w j. recs (KVRecordStore_deleteRecord C w j) = (recs w)(j := None)"
    and quiet: "\<forall>cb w j. cappedDeleteCallback s = Some cb \<longrightarrow> recs (fst (cb w j)) = recs w"
    and tracker: "idTracker s = Some t"
    and hidden: "i \<notin> set (setIteratorRestriction C t
                              (KVRecordStore_getIterator C (base s) None FORWARD))"
  shows "recs (base (fst (deleteAsNeeded C s))) i = recs (base s) i"
  using deleteAsNeeded_loop_keeps_record [OF del quiet hidden] tracker
  by (simp add: deleteAsNeeded_def getIterator_def)

text \<open>
  C5, as amended. When the write of an insert has succeeded and the eviction pass that
  follows it fails with a \<open>UserException\<close> (the callback rejected a deletion), insert ends
  with that exception and returns no identifier. It rolls nothing back: the store it
  leaves is the one in which the pass failed, and the new identifier is still registered
  as uncommitted there. The record just written is still as the write left it, given that
  the scan of the pass does not yield the new identifier (the tracker hides an uncommitted
  identifier from forward scans), that the base store's delete removes the record it is
  given and no other, and that the callback leaves the records alone; \<open>recs\<close> gives the
  records of a base store by identifier.
\<close>

theorem insertRecord_eviction_failure:
  assumes fits: "\<not> len > cappedMaxSize s"
    and tracker: "idTracker s = Some t"
    and written: "isOplog s \<and> extractKey C data len = Inr i \<and>
            KVRecordStore_insertRecordAt C (base s) i (Slice data len) = (w, None) \<or>
          \<not> isOplog s \<and> KVRecordStore_insertRecord C (base s) data len enforceQuota = (w, Inr i)"
    and failed: "deleteAsNeeded C (s\<lparr>base := w, idTracker := Some (addUncommittedId C t i)\<rparr>) =
            (s', Throw (UserException e))"
  shows "insertRecord C s data len enforceQuota = (s', Throw (UserException e)) \<and>
         idTracker s' = Some (addUncommittedId C t i) \<and>
         ((\<forall>w j. recs (KVRecordStore_deleteRecord C w j) = (recs w)(j := None)) \<and>
          (\<forall>cb w j. cappedDeleteCallback s = Some cb \<longrightarrow> recs (fst (cb w j)) = recs w) \<and>
          i \<notin> set (setIteratorRestriction C (addUncommittedId C t i)
                       (KVRecordStore_getIterator C w None FORWARD)) \<longrightarrow>
            recs (base s') i = recs w i)"
proof (intro conjI impI)
  let ?s1 = "s\<lparr>base := w, idTracker := Some (addUncommittedId C t i)\<rparr>"
  show "insertRecord C s data len enforceQuota = (s', Throw (UserException e))"
    using insertRecord_written [OF fits tracker written] failed by simp
  show "idTracker s' = Some (addUncommittedId C t i)"
    by (rule insertRecord_registered [OF tracker failed])
  assume a: "(\<forall>w j. recs (KVRecordStore_deleteRecord C w j) = (recs w)(j := None)) \<and>
          (\<forall>cb w j. cappedDeleteCallback s = Some cb \<longrightarrow> recs (fst (cb w j)) = recs w) \<and>
          i \<notin> set (setIteratorRestriction C (addUncommittedId C t i)
                       (KVRecordStore_getIterator C w None FORWARD))"
  from a have del: "\<forall>w j. recs (KVRecordStore_deleteRecord C w j) = (recs w)(j := None)"
    and quiet: "\<forall>cb w j. cappedDeleteCallback ?s1 = Some cb \<longrightarrow> recs (fst (cb w j)) = recs w"
    and hidden: "i \<notin> set (setIteratorRestriction C (addUncommittedId C t i)
                       (KVRecordStore_getIterator C (base ?s1) None FORWARD))"
    by simp_all
  have installed: "idTracker ?s1 = Some (addUncommittedId C t i)"
    by simp
  have "recs (base (fst (deleteAsNeeded C ?s1))) i = recs (base ?s1) i"
    by (rule deleteAsNeeded_keeps_record [OF del quiet installed hidden])
  then show "recs (base s') i = recs w i"
    using failed by simp
qed

text \<open>
  A generic insert of 3 bytes into a 5-byte store that holds the 4-byte record 1, with a
  callback that rejects every deletion: record 2 is written and registered, the pass
  fails on record 1, and insert ends with the rejection; record 2 is still there.
\<close>

theorem insertRecord_eviction_failure_witness:
  "\<not> 3 > cappedMaxSize (sample_store [(1, ''aaaa'')] (Some veto) False False []) \<and>
   idTracker (sample_store [(1, ''aaaa'')] (Some veto) False False []) = Some [] \<and>
   \<not> isOplog (sample_store [(1, ''aaaa'')] (Some veto) False False []) \<and>
   KVRecordStore_insertRecord ref_collaborators
     (base (sample_store [(1, ''aaaa'')] (Some veto) False False [])) ''bbb'' 3 False =
     ([(1, ''aaaa''), (2, ''bbb'')], Inr 2) \<and>
   deleteAsNeeded ref_collaborators
     ((sample_store [(1, ''aaaa'')] (Some veto) False False [])
        \<lparr>base := [(1, ''aaaa''), (2, ''bbb'')],
         idTracker := Some (addUncommittedId ref_collaborators [] 2)\<rparr>) =
     (sample_store [(1, ''aaaa''), (2, ''bbb'')] (Some veto) False False [2],
      Throw (UserException (Error (OtherErrorCode 1) ''deletion rejected''))) \<and>
   2 \<notin> set (setIteratorRestriction ref_collaborators (addUncommittedId ref_collaborators [] 2)
               (KVRecordStore_getIterator ref_collaborators [(1, ''aaaa''), (2, ''bbb'')] None FORWARD)) \<and>
   insertRecord ref_collaborators (sample_store [(1, ''aaaa'')] (Some veto) False False []) ''bbb'' 3 False =
     (sample_store [(1, ''aaaa''), (2, ''bbb'')] (Some veto) False False [2],
      Throw (UserException (Error (OtherErrorCode 1) ''deletion rejected''))) \<and>
   idTracker (sample_store [(1, ''aaaa''), (2, ''bbb'')] (Some veto) False False [2]) =
     Some (addUncommittedId ref_collaborators [] 2) \<and>
   map_of (base (sample_store [(1, ''aaaa''), (2, ''bbb'')] (Some veto) False False [2])) 2 =
     map_of ([(1, ''aaaa''), (2, ''bbb'')] :: dictionary) 2 \<and>
   map_of (base (sample_store [(1, ''aaaa''), (2, ''bbb'')] (Some veto) False False [2])) 2 = Some ''bbb''"
proof -
  let ?s = "sample_store [(1, ''aaaa'')] (Some veto) False False []"
  let ?w = "[(1, ''aaaa''), (2, ''bbb'')] :: dictionary"
  let ?s' = "sample_store ?w (Some veto) False False [2]"
  let ?e = "Error (OtherErrorCode 1) ''deletion rejected''"
  have fits: "\<not> 3 > cappedMaxSize ?s"
    by simp
  have tracker: "idTracker ?s = Some []"
    by simp
  have written: "isOplog ?s \<and> extractKey ref_collaborators ''bbb'' 3 = Inr 2 \<and>
            KVRecordStore_insertRecordAt ref_collaborators (base ?s) 2 (Slice ''bbb'' 3) = (?w, None) \<or>
          \<not> isOplog ?s \<and> KVRecordStore_insertRecord ref_collaborators (base ?s) ''bbb'' 3 False = (?w, Inr 2)"
    by (simp add: ref_run)
  have failed: "deleteAsNeeded ref_collaborators
      (?s\<lparr>base := ?w, idTracker := Some (addUncommittedId ref_collaborators [] 2)\<rparr>) =
      (?s', Throw (UserException ?e))"
    by (simp add: ref_run)
  have deletes: "\<forall>w j. map_of (KVRecordStore_deleteRecord ref_collaborators w j) = (map_of w)(j := None)"
    by (simp add: map_of_ref_deleteRecord)
  have quiet: "\<forall>cb w j. cappedDeleteCallback ?s = Some cb \<longrightarrow> map_of (fst (cb w j)) = map_of w"
    by (simp add: veto_def)
  have hidden: "2 \<notin> set (setIteratorRestriction ref_collaborators
      (addUncommittedId ref_collaborators [] 2)
      (KVRecordStore_getIterator ref_collaborators ?w None FORWARD))"
    by (simp add: ref_run)
  note facts = insertRecord_eviction_failure [OF fits tracker written failed, where recs = map_of]
  have outcome: "insertRecord ref_collaborators ?s ''bbb'' 3 False = (?s', Throw (UserException ?e))"
    using facts by blast
  have registered: "idTracker ?s' = Some (addUncommittedId ref_collaborators [] 2)"
    using facts by blast
  have remains: "map_of (base ?s') 2 = map_of ?w 2"
    using facts deletes quiet hidden by blast
  have present: "map_of (base ?s') 2 = Some ''bbb''"
    by simp
  have wr: "KVRecordStore_insertRecord ref_collaborators (base ?s) ''bbb'' 3 False = (?w, Inr 2)"
    by (simp add: ref_run)
  have generic: "\<not> isOplog ?s"
    by simp
  show ?thesis
    by (intro conjI fits tracker generic wr failed hidden outcome registered remains present)
qed

text \<open>
  The claim as it was stated fails: the caller of a generic insert gets no identifier when
  the eviction pass fails. A 4-byte payload goes into a 5-byte store that holds the 2-byte
  records 1 and 2, with a callback that rejects the deletion of record 2. Record 3 is
  written and registered, the pass evicts record 1, the callback rejects the eviction of
  record 2, and insert ends with that \<open>UserException\<close>, not with \<open>Return (Inr 3)\<close>.
\<close>

theorem insertRecord_eviction_failure_counterexample:
  "insertRecord ref_collaborators
     (sample_store [(1, ''aa''), (2, ''bb'')] (Some (veto_only 2)) False False []) ''cccc'' 4 False =
     (sample_store [(2, ''bb''), (3, ''cccc'')] (Some (veto_only 2)) False False [3],
      Throw (UserException (Error (OtherErrorCode 1) ''deletion rejected''))) \<and>
   snd (insertRecord ref_collaborators
     (sample_store [(1, ''aa''), (2, ''bb'')] (Some (veto_only 2)) False False []) ''cccc'' 4 False) \<noteq>
     Return (Inr 3)"
  by (simp add: ref_run)

section \<open>Eviction\<close>

text \<open>
  C3. \<open>deleteAsNeeded\<close> changes nothing when \<open>needsDelete\<close> is false, and nothing when the
  mutex is held by another thread. Otherwise it deletes, through \<open>deleteRecord\<close> and in scan
  order, the first \<open>n\<close> identifiers of the forward scan it opens (the scan is restricted by
  the tracker): before each of those deletions \<open>needsDelete\<close> was true of the store reached by
  the deletions before it, each of which had returned; and when the pass returns it has
  either exhausted the scan or reached a store of which \<open>needsDelete\<close> is false.
\<close>

theorem deleteAsNeeded_evicts_oldest_first:
  "(\<not> needsDelete C s \<longrightarrow> deleteAsNeeded C s = (s, Return ())) \<and>
   (needsDelete C s \<and> cappedDeleteMutex s \<longrightarrow> deleteAsNeeded C s = (s, Return ())) \<and>
   (needsDelete C s \<and> \<not> cappedDeleteMutex s \<and> idTracker s = Some t \<longrightarrow>
      (\<exists>n\<le>length (setIteratorRestriction C t (KVRecordStore_getIterator C (base s) None FORWARD)).
         deleteAsNeeded C s =
           deleteRecords C s
             (take n (setIteratorRestriction C t (KVRecordStore_getIterator C (base s) None FORWARD))) \<and>
         (\<forall>k<n. needsDelete C (fst (deleteRecords C s
                   (take k (setIteratorRestriction C t
                      (KVRecordStore_getIterator C (base s) None FORWARD))))) \<and>
                 snd (deleteRecords C s
                   (take k (setIteratorRestriction C t
                      (KVRecordStore_getIterator C (base s) None FORWARD)))) = Return ()) \<and>
         (snd (deleteAsNeeded C s) = Return () \<longrightarrow>
            n = length (setIteratorRestriction C t (KVRecordStore_getIterator C (base s) None FORWARD)) \<or>
            \<not> needsDelete C (fst (deleteAsNeeded C s)))))"
proof (intro conjI impI)
  show "\<not> needsDelete C s \<Longrightarrow> deleteAsNeeded C s = (s, Return ())"
    by (simp add: deleteAsNeeded_def)
  show "needsDelete C s \<and> cappedDeleteMutex s \<Longrightarrow> deleteAsNeeded C s = (s, Return ())"
    by (simp add: deleteAsNeeded_def)
next
  let ?scan = "setIteratorRestriction C t (KVRecordStore_getIterator C (base s) None FORWARD)"
  assume a: "needsDelete C s \<and> \<not> cappedDeleteMutex s \<and> idTracker s = Some t"
  then have "deleteAsNeeded C s = deleteAsNeeded_loop C s ?scan"
    by (simp add: deleteAsNeeded_def getIterator_def)
  then show "\<exists>n\<le>length ?scan.
         deleteAsNeeded C s = deleteRecords C s (take n ?scan) \<and>
         (\<forall>k<n. needsDelete C (fst (deleteRecords C s (take k ?scan))) \<and>
                 snd (deleteRecords C s (take k ?scan)) = Return ()) \<and>
         (snd (deleteAsNeeded C s) = Return () \<longrightarrow>
            n = length ?scan \<or> \<not> needsDelete C (fst (deleteAsNeeded C s)))"
    using deleteAsNeeded_loop_prefix [of ?scan C s] by simp
qed

text \<open>
  On the reference collaborators, with a capacity of 5 bytes: a store of 4 bytes is left
  alone; a store of 8 bytes whose mutex is held is left alone; a store of 10 bytes in
  records 1, 2 and 3 loses records 1 and 2, which brings it to 2 bytes, and keeps record 3.
\<close>

theorem deleteAsNeeded_evicts_oldest_first_witness:
  "\<not> needsDelete ref_collaborators (sample_store [(1, ''aaaa'')] None False False []) \<and>
   deleteAsNeeded ref_collaborators (sample_store [(1, ''aaaa'')] None False False []) =
     (sample_store [(1, ''aaaa'')] None False False [], Return ()) \<and>
   needsDelete ref_collaborators (sample_store [(1, ''aaaa''), (2, ''bbbb'')] None True False []) \<and>
   cappedDeleteMutex (sample_store [(1, ''aaaa''), (2, ''bbbb'')] None True False []) \<and>
   deleteAsNeeded ref_collaborators (sample_store [(1, ''aaaa''), (2, ''bbbb'')] None True False []) =
     (sample_store [(1, ''aaaa''), (2, ''bbbb'')] None True False [], Return ()) \<and>
   needsDelete ref_collaborators
     (sample_store [(1, ''aaaa''), (2, ''bbbb''), (3, ''cc'')] None False False []) \<and>
   \<not> cappedDeleteMutex (sample_store [(1, ''aaaa''), (2, ''bbbb''), (3, ''cc'')] None False False []) \<and>
   idTracker (sample_store [(1, ''aaaa''), (2, ''bbbb''), (3, ''cc'')] None False False []) = Some [] \<and>
   setIteratorRestriction ref_collaborators []
     (KVRecordStore_getIterator ref_collaborators [(1, ''aaaa''), (2, ''bbbb''), (3, ''cc'')] None FORWARD) =
     [1, 2, 3] \<and>
   (\<exists>n\<le>length [1, 2, 3 :: RecordId].
      deleteAsNeeded ref_collaborators
        (sample_store [(1, ''aaaa''), (2, ''bbbb''), (3, ''cc'')] None False False []) =
      deleteRecords ref_collaborators
        (sample_store [(1, ''aaaa''), (2, ''bbbb''), (3, ''cc'')] None False False []) (take n [1, 2, 3])) \<and>
   deleteAsNeeded ref_collaborators
     (sample_store [(1, ''aaaa''), (2, ''bbbb''), (3, ''cc'')] None False False []) =
     (sample_store [(3, ''cc'')] None False False [], Return ())"
proof -
  have scan: "setIteratorRestriction ref_collaborators []
     (KVRecordStore_getIterator ref_collaborators [(1, ''aaaa''), (2, ''bbbb''), (3, ''cc'')] None FORWARD) =
     [1, 2, 3]"
    by (simp add: ref_run)
  have over: "needsDelete ref_collaborators
     (sample_store [(1, ''aaaa''), (2, ''bbbb''), (3, ''cc'')] None False False [])"
    by (simp add: ref_run)
  have run: "deleteAsNeeded ref_collaborators
     (sample_store [(1, ''aaaa''), (2, ''bbbb''), (3, ''cc'')] None False False []) =
     (sample_store [(3, ''cc'')] None False False [], Return ())"
    by (simp add: ref_run)
  have prefix: "\<exists>n\<le>length [1, 2, 3 :: RecordId].
      deleteAsNeeded ref_collaborators
        (sample_store [(1, ''aaaa''), (2, ''bbbb''), (3, ''cc'')] None False False []) =
      deleteRecords ref_collaborators
        (sample_store [(1, ''aaaa''), (2, ''bbbb''), (3, ''cc'')] None False False []) (take n [1, 2, 3])"
    using deleteAsNeeded_evicts_oldest_first [where C = ref_collaborators and t = "[]"
        and s = "sample_store [(1, ''aaaa''), (2, ''bbbb''), (3, ''cc'')] None False False []"]
      over scan
    by (simp only: sample_store_simps) blast
  have idle: "\<not> needsDelete ref_collaborators (sample_store [(1, ''aaaa'')] None False False []) \<and>
     deleteAsNeeded ref_collaborators (sample_store [(1, ''aaaa'')] None False False []) =
       (sample_store [(1, ''aaaa'')] None False False [], Return ())"
    using deleteAsNeeded_evicts_oldest_first [where C = ref_collaborators and t = "[]"
        and s = "sample_store [(1, ''aaaa'')] None False False []"]
    by (simp add: needsDelete_def ref_dataSize_def)
  have locked: "needsDelete ref_collaborators (sample_store [(1, ''aaaa''), (2, ''bbbb'')] None True False []) \<and>
     deleteAsNeeded ref_collaborators (sample_store [(1, ''aaaa''), (2, ''bbbb'')] None True False []) =
       (sample_store [(1, ''aaaa''), (2, ''bbbb'')] None True False [], Return ())"
    using deleteAsNeeded_evicts_oldest_first [where C = ref_collaborators and t = "[]"
        and s = "sample_store [(1, ''aaaa''), (2, ''bbbb'')] None True False []"]
    by (simp add: needsDelete_def ref_dataSize_def)
  show ?thesis
    using scan over run prefix idle locked by simp
qed

section \<open>The capacity test\<close>

text \<open>
  C4. \<open>needsDelete\<close> is true exactly when the data size is greater than \<open>cappedMaxSize\<close>, or
  a document limit is set and the number of records is greater than it. The limit is kept
  in \<open>cappedMaxDocs\<close>, where \<open>- 1\<close> stands for no limit. The constructor takes 4096 for the
  size when the options leave \<open>cappedSize\<close> at 0, and no limit when they leave
  \<open>cappedMaxDocs\<close> at 0; a store constructed without a document limit needs a deletion
  only for its size.
\<close>

theorem needsDelete_capacity:
  "(needsDelete C s \<longleftrightarrow>
      dataSize C (base s) > cappedMaxSize s \<or>
      (cappedMaxDocs s \<noteq> - 1 \<and> numRecords C (base s) > cappedMaxDocs s)) \<and>
   cappedMaxSize (new_KVRecordStoreCapped C kv ns options) =
     (if options_cappedSize options = 0 then 4096 else options_cappedSize options) \<and>
   cappedMaxDocs (new_KVRecordStoreCapped C kv ns options) =
     (if options_cappedMaxDocs options = 0 then - 1 else options_cappedMaxDocs options) \<and>
   (options_cappedMaxDocs options = 0 \<longrightarrow>
      (needsDelete C (new_KVRecordStoreCapped C kv ns options) \<longleftrightarrow>
         dataSize C kv > cappedMaxSize (new_KVRecordStoreCapped C kv ns options)))"
  by (simp add: needsDelete_def new_KVRecordStoreCapped_def)

text \<open>
  Three one-byte records in a store constructed from options that set nothing: the size
  limit is 4096 and no deletion is needed, while with \<open>cappedMaxDocs\<close> at 2 one is.
\<close>

theorem needsDelete_capacity_witness:
  "options_cappedMaxDocs \<lparr>options_cappedSize = 0, options_cappedMaxDocs = 0\<rparr> = 0 \<and>
   cappedMaxSize (new_KVRecordStoreCapped ref_collaborators
      [(1, ''a''), (2, ''b''), (3, ''c'')] ''test.capped''
      \<lparr>options_cappedSize = 0, options_cappedMaxDocs = 0\<rparr>) = 4096 \<and>
   (needsDelete ref_collaborators (new_KVRecordStoreCapped ref_collaborators
      [(1, ''a''), (2, ''b''), (3, ''c'')] ''test.capped''
      \<lparr>options_cappedSize = 0, options_cappedMaxDocs = 0\<rparr>) \<longleftrightarrow>
    dataSize ref_collaborators [(1, ''a''), (2, ''b''), (3, ''c'')] > 4096) \<and>
   \<not> needsDelete ref_collaborators (new_KVRecordStoreCapped ref_collaborators
      [(1, ''a''), (2, ''b''), (3, ''c'')] ''test.capped''
      \<lparr>options_cappedSize = 0, options_cappedMaxDocs = 0\<rparr>) \<and>
   needsDelete ref_collaborators (new_KVRecordStoreCapped ref_collaborators
      [(1, ''a''), (2, ''b''), (3, ''c'')] ''test.capped''
      \<lparr>options_cappedSize = 0, options_cappedMaxDocs = 2\<rparr>)"
  using needsDelete_capacity [where C = ref_collaborators
      and kv = "[(1, ''a''), (2, ''b''), (3, ''c'')]" and ns = "''test.capped''"
      and options = "\<lparr>options_cappedSize = 0, options_cappedMaxDocs = 0\<rparr>"]
    needsDelete_capacity [where C = ref_collaborators
      and kv = "[(1, ''a''), (2, ''b''), (3, ''c'')]" and ns = "''test.capped''"
      and options = "\<lparr>options_cappedSize = 0, options_cappedMaxDocs = 2\<rparr>"
      and s = "new_KVRecordStoreCapped ref_collaborators
      [(1, ''a''), (2, ''b''), (3, ''c'')] ''test.capped''
      \<lparr>options_cappedSize = 0, options_cappedMaxDocs = 2\<rparr>"]
  by (simp add: ref_dataSize_def ref_numRecords_def new_KVRecordStoreCapped_def)

section \<open>Reserving a log position\<close>

text \<open>
  C9. When \<open>keyForOptime\<close> fails, \<open>oplogDiskLocRegister\<close> returns its error and leaves the
  store, tracker included, as it was. Otherwise it registers the derived identifier as
  uncommitted in the tracker and returns OK; the base store is not written.
\<close>

theorem oplogDiskLocRegister_result:
  "(keyForOptime C opTime = Inl e \<longrightarrow> oplogDiskLocRegister C s opTime = (s, Return (Some e))) \<and>
   (keyForOptime C opTime = Inr loc \<and> idTracker s = Some t \<longrightarrow>
      oplogDiskLocRegister C s opTime =
        (s\<lparr>idTracker := Some (addUncommittedId C t loc)\<rparr>, Return None) \<and>
      base (fst (oplogDiskLocRegister C s opTime)) = base s)"
  by (simp add: oplogDiskLocRegister_def)

text \<open>
  An ordering token whose seconds do not fit in 31 bits is refused; the token (1, 7)
  registers the identifier \<open>2 ^ 32 + 7\<close>.
\<close>

theorem oplogDiskLocRegister_result_witness:
  "keyForOptime ref_collaborators (2 ^ 31, 0) = Inl (Error BadValue ''ts secs too high'') \<and>
   oplogDiskLocRegister ref_collaborators (sample_store [(1, ''aaaa'')] None False True []) (2 ^ 31, 0) =
     (sample_store [(1, ''aaaa'')] None False True [], Return (Some (Error BadValue ''ts secs too high''))) \<and>
   keyForOptime ref_collaborators (1, 7) = Inr 4294967303 \<and>
   idTracker (sample_store [(1, ''aaaa'')] None False True []) = Some [] \<and>
   oplogDiskLocRegister ref_collaborators (sample_store [(1, ''aaaa'')] None False True []) (1, 7) =
     (sample_store [(1, ''aaaa'')] None False True [4294967303], Return None)"
  using oplogDiskLocRegister_result [where C = ref_collaborators and opTime = "(2 ^ 31, 0)"
      and s = "sample_store [(1, ''aaaa'')] None False True []"
      and e = "Error BadValue ''ts secs too high''"]
    oplogDiskLocRegister_result [where C = ref_collaborators and opTime = "(1, 7)"
      and s = "sample_store [(1, ''aaaa'')] None False True []" and t = "[]" and loc = 4294967303]
  by (simp add: ref_keyForOptime_def ref_addUncommittedId_def)

section \<open>Inserting a document writer\<close>

text \<open>
  C10, as amended. For a document whose size is less than \<open>2 ^ 31\<close>, so that it fits the
  \<open>int\<close> length of the \<open>(data, len)\<close> overload, the \<open>DocWriter\<close> overload of \<open>insertRecord\<close>
  does what the specification's wording does: it serializes the document into a buffer of
  \<open>documentSize()\<close> bytes and inserts that buffer, with its size for the length, through
  the \<open>(data, len)\<close> overload; result and final store are the same.
\<close>

theorem insertRecord_doc_refines:
  "documentSize doc < 2 ^ 31 \<Longrightarrow>
     insertRecord_doc C s doc enforceQuota = insertRecord_doc_spec C s doc enforceQuota"
  by (simp add: insertRecord_doc_def insertRecord_doc_spec_def serialize_def Let_def
      size_t_to_int_small)

text \<open>
  A 6-byte document is refused by the 5-byte store on both sides; a 3-byte document is
  inserted on both sides: record 1 is evicted and the new identifier 2 is returned.
\<close>

theorem insertRecord_doc_refines_witness:
  "documentSize \<lparr>documentSize = 6, writeDocument = (\<lambda>buf. ''abcdef'' @ drop 6 buf)\<rparr> < 2 ^ 31 \<and>
   insertRecord_doc ref_collaborators (sample_store [(1, ''aaaa'')] None False False [])
     \<lparr>documentSize = 6, writeDocument = (\<lambda>buf. ''abcdef'' @ drop 6 buf)\<rparr> False =
   insertRecord_doc_spec ref_collaborators (sample_store [(1, ''aaaa'')] None False False [])
     \<lparr>documentSize = 6, writeDocument = (\<lambda>buf. ''abcdef'' @ drop 6 buf)\<rparr> False \<and>
   insertRecord_doc_spec ref_collaborators (sample_store [(1, ''aaaa'')] None False False [])
     \<lparr>documentSize = 6, writeDocument = (\<lambda>buf. ''abcdef'' @ drop 6 buf)\<rparr> False =
     (sample_store [(1, ''aaaa'')] None False False [],
      Return (Inl (Error BadValue ''object to insert exceeds cappedMaxSize''))) \<and>
   documentSize \<lparr>documentSize = 3, writeDocument = (\<lambda>buf. ''abc'' @ drop 3 buf)\<rparr> < 2 ^ 31 \<and>
   insertRecord_doc ref_collaborators (sample_store [(1, ''aaaa'')] None False False [])
     \<lparr>documentSize = 3, writeDocument = (\<lambda>buf. ''abc'' @ drop 3 buf)\<rparr> False =
   insertRecord_doc_spec ref_collaborators (sample_store [(1, ''aaaa'')] None False False [])
     \<lparr>documentSize = 3, writeDocument = (\<lambda>buf. ''abc'' @ drop 3 buf)\<rparr> False \<and>
   insertRecord_doc_spec ref_collaborators (sample_store [(1, ''aaaa'')] None False False [])
     \<lparr>documentSize = 3, writeDocument = (\<lambda>buf. ''abc'' @ drop 3 buf)\<rparr> False =
     (sample_store [(2, ''abc'')] None False False [2], Return (Inr 2))"
proof -
  let ?s = "sample_store [(1, ''aaaa'')] None False False []"
  let ?big = "\<lparr>documentSize = 6, writeDocument = (\<lambda>buf. ''abcdef'' @ drop 6 buf)\<rparr>"
  let ?doc = "\<lparr>documentSize = 3, writeDocument = (\<lambda>buf. ''abc'' @ drop 3 buf)\<rparr>"
  have small: "documentSize ?big < 2 ^ 31" "documentSize ?doc < 2 ^ 31"
    by simp_all
  have refused: "insertRecord_doc_spec ref_collaborators ?s ?big False =
      (?s, Return (Inl (Error BadValue ''object to insert exceeds cappedMaxSize'')))"
    by (simp add: insertRecord_doc_spec_def insertRecord_def)
  have inserted: "insertRecord_doc_spec ref_collaborators ?s ?doc False =
      (sample_store [(2, ''abc'')] None False False [2], Return (Inr 2))"
    by (simp add: insertRecord_doc_spec_def serialize_def ref_run)
  show ?thesis
    using small refused inserted
      insertRecord_doc_refines [OF small(1), of ref_collaborators ?s False]
      insertRecord_doc_refines [OF small(2), of ref_collaborators ?s False]
    by (simp only:) 
qed

text \<open>
  The claim as it was stated fails for a document of \<open>2 ^ 32 + 3\<close> bytes: the \<open>int\<close> that the
  \<open>(data, len)\<close> overload receives is 3, so the 5-byte store accepts the document and
  stores its first 3 bytes, while an insert of the buffer with its size for the length is
  refused with \<open>BadValue\<close>.
\<close>

theorem insertRecord_doc_refines_counterexample:
  "insertRecord_doc ref_collaborators (sample_store [(1, ''aaaa'')] None False False [])
     \<lparr>documentSize = 4294967299, writeDocument = (\<lambda>buf. ''abc'' @ drop 3 buf)\<rparr> False =
     (sample_store [(2, ''abc'')] None False False [2], Return (Inr 2)) \<and>
   insertRecord_doc_spec ref_collaborators (sample_store [(1, ''aaaa'')] None False False [])
     \<lparr>documentSize = 4294967299, writeDocument = (\<lambda>buf. ''abc'' @ drop 3 buf)\<rparr> False =
     (sample_store [(1, ''aaaa'')] None False False [],
      Return (Inl (Error BadValue ''object to insert exceeds cappedMaxSize''))) \<and>
   insertRecord_doc ref_collaborators (sample_store [(1, ''aaaa'')] None False False [])
     \<lparr>documentSize = 4294967299, writeDocument = (\<lambda>buf. ''abc'' @ drop 3 buf)\<rparr> False \<noteq>
   insertRecord_doc_spec ref_collaborators (sample_store [(1, ''aaaa'')] None False False [])
     \<lparr>documentSize = 4294967299, writeDocument = (\<lambda>buf. ''abc'' @ drop 3 buf)\<rparr> False"
proof -
  let ?s = "sample_store [(1, ''aaaa'')] None False False []"
  let ?huge = "\<lparr>documentSize = 4294967299, writeDocument = (\<lambda>buf. ''abc'' @ drop 3 buf)\<rparr>"
  have narrow: "size_t_to_int 4294967299 = 3"
    by (simp add: size_t_to_int_def)
  have code: "insertRecord_doc ref_collaborators ?s ?huge False =
      (sample_store [(2, ''abc'')] None False False [2], Return (Inr 2))"
    by (simp add: insertRecord_doc_def Let_def narrow ref_run)
  have spec: "insertRecord_doc_spec ref_collaborators ?s ?huge False =
      (?s, Return (Inl (Error BadValue ''object to insert exceeds cappedMaxSize'')))"
    by (simp add: insertRecord_doc_spec_def insertRecord_def)
  have "snd (insertRecord_doc ref_collaborators ?s ?huge False) \<noteq>
        snd (insertRecord_doc_spec ref_collaborators ?s ?huge False)"
    by (simp only: code spec) simp
  then have differ: "insertRecord_doc ref_collaborators ?s ?huge False \<noteq>
      insertRecord_doc_spec ref_collaborators ?s ?huge False"
    by auto
  show ?thesis
    using code spec differ by blast
qed

section \<open>The start of an oplog scan\<close>

lemma oplogStartHack_loop_greatest:
  assumes "sorted_wrt (\<lambda>a b. b \<le> a) iter"
  shows "oplogStartHack_loop invalid start lowest iter =
    (if {i \<in> set iter. i \<le> start \<and> i < lowest} = {} then invalid
     else Max {i \<in> set iter. i \<le> start \<and> i < lowest})"
  using assms
proof (induction iter)
  case Nil
  show ?case by simp
next
  case (Cons x iter)
  then have below: "\<forall>y\<in>set iter. y \<le> x" and sorted: "sorted_wrt (\<lambda>a b. b \<le> a) iter"
    by simp_all
  show ?case
  proof (cases "x \<le> start \<and> x < lowest")
    case True
    let ?S = "{i \<in> set (x # iter). i \<le> start \<and> i < lowest}"
    have "x \<in> ?S" using True by simp
    moreover have "\<forall>y\<in>?S. y \<le> x" using below by auto
    moreover have "finite ?S" by simp
    ultimately have mx: "Max ?S = x" by (intro Max_eqI) auto
    have ne: "?S \<noteq> {}" using \<open>x \<in> ?S\<close> by blast
    have r: "oplogStartHack_loop invalid start lowest (x # iter) = x" using True by simp
    show ?thesis by (simp only: r ne mx if_False)
  next
    case False
    then have eq: "{i \<in> set (x # iter). i \<le> start \<and> i < lowest} =
               {i \<in> set iter. i \<le> start \<and> i < lowest}"
      by auto
    have r: "oplogStartHack_loop invalid start lowest (x # iter) =
             oplogStartHack_loop invalid start lowest iter"
      by (simp only: oplogStartHack_loop.simps False if_False)
    show ?thesis by (simp only: r eq Cons.IH [OF sorted])
  qed
qed

text \<open>
  C6. Without a tracker \<open>oplogStartHack\<close> returns the invalid identifier. With one, let the
  backward iterator opened at the starting position yield, in descending order,
  identifiers of the store, among them every identifier of the store at or below the
  starting position (\<open>ids\<close> is the set of identifiers in the store). Then the result is
  the greatest identifier of the store that is at most the starting position and less
  than \<open>lowestInvisible\<close>, and the invalid identifier when there is none.
\<close>

theorem oplogStartHack_greatest_visible:
  "(idTracker s = None \<longrightarrow> oplogStartHack C s start = Return (RecordId_invalid C)) \<and>
   (idTracker s = Some t \<and>
    sorted_wrt (\<lambda>a b. b \<le> a) (KVRecordStore_getIterator C (base s) (Some start) BACKWARD) \<and>
    {i \<in> ids. i \<le> start} \<subseteq> set (KVRecordStore_getIterator C (base s) (Some start) BACKWARD) \<and>
    set (KVRecordStore_getIterator C (base s) (Some start) BACKWARD) \<subseteq> ids \<longrightarrow>
      oplogStartHack C s start =
        Return (if {i \<in> ids. i \<le> start \<and> i < lowestInvisible C t} = {} then RecordId_invalid C
                else Max {i \<in> ids. i \<le> start \<and> i < lowestInvisible C t}))"
proof (intro conjI impI)
  show "idTracker s = None \<Longrightarrow> oplogStartHack C s start = Return (RecordId_invalid C)"
    by (simp add: oplogStartHack_def)
next
  let ?iter = "KVRecordStore_getIterator C (base s) (Some start) BACKWARD"
  assume a: "idTracker s = Some t \<and> sorted_wrt (\<lambda>a b. b \<le> a) ?iter \<and>
    {i \<in> ids. i \<le> start} \<subseteq> set ?iter \<and> set ?iter \<subseteq> ids"
  then have same: "{i \<in> ids. i \<le> start \<and> i < lowestInvisible C t} =
      {i \<in> set ?iter. i \<le> start \<and> i < lowestInvisible C t}"
    by auto
  have "oplogStartHack C s start =
      Return (oplogStartHack_loop (RecordId_invalid C) start (lowestInvisible C t) ?iter)"
    using a by (simp add: oplogStartHack_def getIterator_def)
  then show "oplogStartHack C s start =
        Return (if {i \<in> ids. i \<le> start \<and> i < lowestInvisible C t} = {} then RecordId_invalid C
                else Max {i \<in> ids. i \<le> start \<and> i < lowestInvisible C t})"
    using a oplogStartHack_loop_greatest [of ?iter "RecordId_invalid C" start "lowestInvisible C t"]
    by (simp only: same)
qed

text \<open>
  A store of records 1, 3, 5 and 7 in which 5 is uncommitted: from position 6 the answer
  is 3, and without a tracker it is the invalid identifier.
\<close>

theorem oplogStartHack_greatest_visible_witness:
  "idTracker ((sample_store [(1, ''a''), (3, ''b''), (5, ''c''), (7, ''d'')] None False True [5])
      \<lparr>idTracker := None\<rparr>) = None \<and>
   oplogStartHack ref_collaborators
     ((sample_store [(1, ''a''), (3, ''b''), (5, ''c''), (7, ''d'')] None False True [5])
        \<lparr>idTracker := None\<rparr>) 6 = Return (- 2) \<and>
   idTracker (sample_store [(1, ''a''), (3, ''b''), (5, ''c''), (7, ''d'')] None False True [5]) = Some [5] \<and>
   KVRecordStore_getIterator ref_collaborators [(1, ''a''), (3, ''b''), (5, ''c''), (7, ''d'')]
     (Some 6) BACKWARD = [5, 3, 1] \<and>
   sorted_wrt (\<lambda>a b. b \<le> a) [5, 3, 1 :: RecordId] \<and>
   {i \<in> {1, 3, 5, 7 :: RecordId}. i \<le> 6} \<subseteq> set [5, 3, 1] \<and>
   set [5, 3, 1 :: RecordId] \<subseteq> {1, 3, 5, 7} \<and>
   lowestInvisible ref_collaborators [5] = 5 \<and>
   oplogStartHack ref_collaborators
     (sample_store [(1, ''a''), (3, ''b''), (5, ''c''), (7, ''d'')] None False True [5]) 6 =
     Return (if {i \<in> {1, 3, 5, 7 :: RecordId}. i \<le> 6 \<and> i < 5} = {} then - 2
             else Max {i \<in> {1, 3, 5, 7 :: RecordId}. i \<le> 6 \<and> i < 5}) \<and>
   oplogStartHack ref_collaborators
     (sample_store [(1, ''a''), (3, ''b''), (5, ''c''), (7, ''d'')] None False True [5]) 6 = Return 3"
proof -
  let ?d = "[(1, ''a''), (3, ''b''), (5, ''c''), (7, ''d'')] :: dictionary"
  let ?s = "sample_store ?d None False True [5]"
  have iter: "KVRecordStore_getIterator ref_collaborators ?d (Some 6) BACKWARD = [5, 3, 1]"
    by (simp add: ref_getIterator_def)
  have low: "lowestInvisible ref_collaborators [5] = 5"
    by (simp add: ref_lowestInvisible_def)
  have hyps: "sorted_wrt (\<lambda>a b. b \<le> a) [5, 3, 1 :: RecordId] \<and>
      {i \<in> {1, 3, 5, 7 :: RecordId}. i \<le> 6} \<subseteq> set [5, 3, 1] \<and>
      set [5, 3, 1 :: RecordId] \<subseteq> {1, 3, 5, 7}"
    by auto
  have run: "oplogStartHack ref_collaborators ?s 6 = Return 3"
    by (simp add: ref_run)
  have none: "oplogStartHack ref_collaborators (?s\<lparr>idTracker := None\<rparr>) 6 = Return (- 2)"
    using oplogStartHack_greatest_visible [where C = ref_collaborators
        and s = "?s\<lparr>idTracker := None\<rparr>" and start = 6]
    by simp
  have greatest: "oplogStartHack ref_collaborators ?s 6 =
     Return (if {i \<in> {1, 3, 5, 7 :: RecordId}. i \<le> 6 \<and> i < 5} = {} then - 2
             else Max {i \<in> {1, 3, 5, 7 :: RecordId}. i \<le> 6 \<and> i < 5})"
    using oplogStartHack_greatest_visible [where C = ref_collaborators and s = ?s and start = 6
        and t = "[5]" and ids = "{1, 3, 5, 7}"] iter low hyps
    by (simp only: sample_store_simps ref_collaborators_simps)
  show ?thesis
    using iter low hyps run none greatest by simp
qed

section \<open>Truncation\<close>

lemma temp_cappedTruncateAfter_loop_targets:
  "temp_cappedTruncateAfter_loop C s endLoc inclusive iter =
     deleteRecords_inUnitsOfWork C s (filter (\<lambda>loc. inclusive \<or> loc \<noteq> endLoc) iter)"
proof (induction iter arbitrary: s)
  case Nil
  show ?case by simp
next
  case (Cons loc iter)
  show ?case
  proof (cases "\<not> inclusive \<and> loc = endLoc")
    case True
    then show ?thesis using Cons.IH [of s] by simp
  next
    case False
    obtain s' r where d: "deleteRecord C (s\<lparr>base := beginUnitOfWork C (base s)\<rparr>) loc = (s', r)"
      by (cases "deleteRecord C (s\<lparr>base := beginUnitOfWork C (base s)\<rparr>) loc")
    show ?thesis
    proof (cases r)
      case (Throw e)
      then show ?thesis using False d by auto
    next
      case (Return u)
      then show ?thesis
        using False d Cons.IH [of "s'\<lparr>base := endUnitOfWork C (commitUnitOfWork C (base s'))\<rparr>"]
        by auto
    qed
  qed
qed

lemma deleteRecords_inUnitsOfWork_no_callback:
  assumes "cappedDeleteCallback s = None"
  shows "deleteRecords_inUnitsOfWork C s dls =
     (s\<lparr>base := fold (\<lambda>dl w. endUnitOfWork C (commitUnitOfWork C
                        (KVRecordStore_deleteRecord C (beginUnitOfWork C w) dl))) dls (base s)\<rparr>,
      Return ())"
  using assms
proof (induction dls arbitrary: s)
  case Nil
  show ?case by simp
next
  case (Cons dl dls)
  let ?w = "endUnitOfWork C (commitUnitOfWork C
              (KVRecordStore_deleteRecord C (beginUnitOfWork C (base s)) dl))"
  have d: "deleteRecord C (s\<lparr>base := beginUnitOfWork C (base s)\<rparr>) dl =
      (s\<lparr>base := KVRecordStore_deleteRecord C (beginUnitOfWork C (base s)) dl\<rparr>, Return ())"
    using Cons.prems by (simp add: deleteRecord_def)
  have "deleteRecords_inUnitsOfWork C s (dl # dls) = deleteRecords_inUnitsOfWork C (s\<lparr>base := ?w\<rparr>) dls"
    using d by simp
  also have "\<dots> = ((s\<lparr>base := ?w\<rparr>)\<lparr>base := fold (\<lambda>dl w. endUnitOfWork C (commitUnitOfWork C
                        (KVRecordStore_deleteRecord C (beginUnitOfWork C w) dl))) dls (base (s\<lparr>base := ?w\<rparr>))\<rparr>,
      Return ())"
    using Cons.prems by (intro Cons.IH) simp
  finally show ?case by simp
qed





text \<open>
  On the reference collaborators, without a callback and whatever is uncommitted, the
  truncation leaves exactly the records below the given identifier, the record at it
  unless \<open>inclusive\<close> is set, and the records the tracker hides from the scan: the
  uncommitted ones and those above \<open>lowestInvisible\<close>.
\<close>

lemma fold_ref_deleteRecord:
  "fold (\<lambda>dl d. ref_deleteRecord d dl) dls d = filter (\<lambda>kv. fst kv \<notin> set dls) d"
proof (induction dls arbitrary: d)
  case Nil
  show ?case by simp
next
  case (Cons dl dls)
  have "fold (\<lambda>dl d. ref_deleteRecord d dl) (dl # dls) d =
        filter (\<lambda>kv. fst kv \<notin> set dls) (ref_deleteRecord d dl)"
    by (simp add: Cons.IH)
  also have "\<dots> = filter (\<lambda>kv. fst kv \<notin> set (dl # dls)) d"
    by (simp add: ref_deleteRecord_def conj_commute)
  finally show ?case .
qed

lemma ref_truncate_contents:
  "temp_cappedTruncateAfter ref_collaborators (sample_store d None locked oplog t) endLoc inclusive =
     (sample_store
        (filter (\<lambda>kv. \<not> (endLoc \<le> fst kv \<and> (inclusive \<or> fst kv \<noteq> endLoc) \<and>
                           fst kv \<notin> set t \<and> \<not> ref_lowestInvisible t < fst kv)) d)
        None locked oplog t,
      Return ())"
proof -
  let ?s = "sample_store d None locked oplog t"
  let ?iter = "ref_setIteratorRestriction t (ref_getIterator d (Some endLoc) FORWARD)"
  have callback: "cappedDeleteCallback ?s = None"
    by simp
  have "temp_cappedTruncateAfter ref_collaborators ?s endLoc inclusive =
      temp_cappedTruncateAfter_loop ref_collaborators ?s endLoc inclusive ?iter"
    by (simp add: temp_cappedTruncateAfter_def getIterator_def)
  also have "\<dots> =
      (sample_store (filter (\<lambda>kv. fst kv \<notin> set (filter (\<lambda>loc. inclusive \<or> loc \<noteq> endLoc) ?iter)) d)
         None locked oplog t, Return ())"
    using temp_cappedTruncateAfter_loop_targets [of ref_collaborators ?s endLoc inclusive ?iter]
      deleteRecords_inUnitsOfWork_no_callback [OF callback, of ref_collaborators]
    by (simp add: fold_ref_deleteRecord)
  also have "filter (\<lambda>kv. fst kv \<notin> set (filter (\<lambda>loc. inclusive \<or> loc \<noteq> endLoc) ?iter)) d =
      filter (\<lambda>kv. \<not> (endLoc \<le> fst kv \<and> (inclusive \<or> fst kv \<noteq> endLoc) \<and>
                           fst kv \<notin> set t \<and> \<not> ref_lowestInvisible t < fst kv)) d"
    by (rule filter_cong) (auto simp: ref_getIterator_def ref_setIteratorRestriction_def)
  finally show ?thesis .
qed

section \<open>Deletion and the about-to-delete callback\<close>

lemma deleteRecord_guarded:
  assumes cb: "cappedDeleteCallback s = Some cb"
    and guard: "\<forall>w i w' r. P w \<and> cb w i = (w', r) \<longrightarrow>
                  P w' \<and> (r = None \<longrightarrow> P (KVRecordStore_deleteRecord C w' i))"
    and inv: "P (base s)"
  shows "P (base (fst (deleteRecord C s dl)))"
proof -
  obtain w' r where c: "cb (base s) dl = (w', r)"
    by (cases "cb (base s) dl")
  have g: "P w' \<and> (r = None \<longrightarrow> P (KVRecordStore_deleteRecord C w' dl))"
    using guard inv c by blast
  show ?thesis
    using cb c g by (cases r) (simp_all add: deleteRecord_def)
qed

lemma deleteAsNeeded_loop_guarded:
  assumes cb: "cappedDeleteCallback s = Some cb"
    and guard: "\<forall>w i w' r. P w \<and> cb w i = (w', r) \<longrightarrow>
                  P w' \<and> (r = None \<longrightarrow> P (KVRecordStore_deleteRecord C w' i))"
    and inv: "P (base s)"
  shows "P (base (fst (deleteAsNeeded_loop C s iter)))"
  using cb inv
proof (induction iter arbitrary: s)
  case Nil
  then show ?case by simp
next
  case (Cons oldest iter)
  obtain s' r where d: "deleteRecord C s oldest = (s', r)"
    by (cases "deleteRecord C s oldest")
  have cb': "cappedDeleteCallback s' = Some cb"
    using deleteRecord_callback [of C s oldest] d Cons.prems(1) by simp
  have inv': "P (base s')"
    using deleteRecord_guarded [OF Cons.prems(1) guard Cons.prems(2), of oldest] d by simp
  show ?case
  proof (cases "needsDelete C s")
    case False
    then show ?thesis using Cons.prems(2) by simp
  next
    case True
    show ?thesis
    proof (cases r)
      case (Throw e)
      then show ?thesis using True d inv' by simp
    next
      case (Return u)
      then show ?thesis using True d Cons.IH [OF cb' inv'] by simp
    qed
  qed
qed

lemma temp_cappedTruncateAfter_loop_guarded:
  assumes cb: "cappedDeleteCallback s = Some cb"
    and guard: "\<forall>w i w' r. P w \<and> cb w i = (w', r) \<longrightarrow>
                  P w' \<and> (r = None \<longrightarrow> P (KVRecordStore_deleteRecord C w' i))"
    and units: "\<forall>w. P w \<longrightarrow> P (beginUnitOfWork C w) \<and> P (commitUnitOfWork C w) \<and> P (endUnitOfWork C w)"
    and inv: "P (base s)"
  shows "P (base (fst (temp_cappedTruncateAfter_loop C s endLoc inclusive iter)))"
  using cb inv
proof (induction iter arbitrary: s)
  case Nil
  then show ?case by simp
next
  case (Cons loc iter)
  show ?case
  proof (cases "\<not> inclusive \<and> loc = endLoc")
    case True
    then show ?thesis using Cons.IH [OF Cons.prems] by simp
  next
    case False
    let ?s0 = "s\<lparr>base := beginUnitOfWork C (base s)\<rparr>"
    obtain s' r where d: "deleteRecord C ?s0 loc = (s', r)"
      by (cases "deleteRecord C ?s0 loc")
    have cb0: "cappedDeleteCallback ?s0 = Some cb"
      using Cons.prems(1) by simp
    have inv0: "P (base ?s0)"
      using units Cons.prems(2) by simp
    have cb': "cappedDeleteCallback s' = Some cb"
      using deleteRecord_callback [of C ?s0 loc] d cb0 by simp
    have inv': "P (base s')"
      using deleteRecord_guarded [OF cb0 guard inv0, of loc] d by simp
    show ?thesis
    proof (cases r)
      case (Throw e)
      then show ?thesis using False d inv' units by auto
    next
      case (Return u)
      let ?s1 = "s'\<lparr>base := endUnitOfWork C (commitUnitOfWork C (base s'))\<rparr>"
      have cb1: "cappedDeleteCallback ?s1 = Some cb" using cb' by simp
      have inv1: "P (base ?s1)" using inv' units by simp
      show ?thesis using False d Return Cons.IH [OF cb1 inv1] by auto
    qed
  qed
qed

text \<open>
  C8. Without a callback \<open>deleteRecord\<close> goes straight to the base store's delete. With a
  callback it notifies the callback first: when the callback fails, the base store's delete
  is not reached (the store is as the callback left it) and the failure is thrown; when it
  succeeds, the record is deleted from the store as the callback left it. A deletion that
  throws inside the eviction loop or the truncation loop ends that loop with the same
  exception (the truncation after ending its unit of work). And every deletion of
  \<open>deleteRecord\<close>, of the eviction pass and of the truncation goes through the callback: a
  property \<open>P\<close> of the base store that the callback keeps, that the base store's delete
  keeps for the deletions the callback has accepted, and that units of work keep, still
  holds after each of the three operations.
\<close>

theorem deleteRecord_notifies_first:
  "(cappedDeleteCallback s = None \<longrightarrow>
      deleteRecord C s dl = (s\<lparr>base := KVRecordStore_deleteRecord C (base s) dl\<rparr>, Return ())) \<and>
   (cappedDeleteCallback s = Some cb \<and> cb (base s) dl = (w, Some e) \<longrightarrow>
      deleteRecord C s dl = (s\<lparr>base := w\<rparr>, Throw (UserException e))) \<and>
   (cappedDeleteCallback s = Some cb \<and> cb (base s) dl = (w, None) \<longrightarrow>
      deleteRecord C s dl = (s\<lparr>base := KVRecordStore_deleteRecord C w dl\<rparr>, Return ())) \<and>
   (needsDelete C s \<and> deleteRecord C s dl = (s', Throw x) \<longrightarrow>
      deleteAsNeeded_loop C s (dl # iter) = (s', Throw x)) \<and>
   ((inclusive \<or> dl \<noteq> endLoc) \<and>
    deleteRecord C (s\<lparr>base := beginUnitOfWork C (base s)\<rparr>) dl = (s', Throw x) \<longrightarrow>
      temp_cappedTruncateAfter_loop C s endLoc inclusive (dl # iter) =
        (s'\<lparr>base := endUnitOfWork C (base s')\<rparr>, Throw x)) \<and>
   (cappedDeleteCallback s = Some cb \<and>
    (\<forall>w i w' r. P w \<and> cb w i = (w', r) \<longrightarrow>
       P w' \<and> (r = None \<longrightarrow> P (KVRecordStore_deleteRecord C w' i))) \<and>
    (\<forall>w. P w \<longrightarrow> P (beginUnitOfWork C w) \<and> P (commitUnitOfWork C w) \<and> P (endUnitOfWork C w)) \<and>
    P (base s) \<longrightarrow>
      P (base (fst (deleteRecord C s dl))) \<and>
      P (base (fst (deleteAsNeeded C s))) \<and>
      P (base (fst (temp_cappedTruncateAfter C s endLoc inclusive))))"
proof (intro conjI impI)
  show "cappedDeleteCallback s = None \<Longrightarrow>
      deleteRecord C s dl = (s\<lparr>base := KVRecordStore_deleteRecord C (base s) dl\<rparr>, Return ())"
    by (simp add: deleteRecord_def)
  show "cappedDeleteCallback s = Some cb \<and> cb (base s) dl = (w, Some e) \<Longrightarrow>
      deleteRecord C s dl = (s\<lparr>base := w\<rparr>, Throw (UserException e))"
    by (simp add: deleteRecord_def)
  show "cappedDeleteCallback s = Some cb \<and> cb (base s) dl = (w, None) \<Longrightarrow>
      deleteRecord C s dl = (s\<lparr>base := KVRecordStore_deleteRecord C w dl\<rparr>, Return ())"
    by (simp add: deleteRecord_def)
  show "needsDelete C s \<and> deleteRecord C s dl = (s', Throw x) \<Longrightarrow>
      deleteAsNeeded_loop C s (dl # iter) = (s', Throw x)"
    by simp
  show "(inclusive \<or> dl \<noteq> endLoc) \<and>
    deleteRecord C (s\<lparr>base := beginUnitOfWork C (base s)\<rparr>) dl = (s', Throw x) \<Longrightarrow>
      temp_cappedTruncateAfter_loop C s endLoc inclusive (dl # iter) =
        (s'\<lparr>base := endUnitOfWork C (base s')\<rparr>, Throw x)"
    by auto
next
  assume a: "cappedDeleteCallback s = Some cb \<and>
    (\<forall>w i w' r. P w \<and> cb w i = (w', r) \<longrightarrow>
       P w' \<and> (r = None \<longrightarrow> P (KVRecordStore_deleteRecord C w' i))) \<and>
    (\<forall>w. P w \<longrightarrow> P (beginUnitOfWork C w) \<and> P (commitUnitOfWork C w) \<and> P (endUnitOfWork C w)) \<and>
    P (base s)"
  then have cb: "cappedDeleteCallback s = Some cb"
    and guard: "\<forall>w i w' r. P w \<and> cb w i = (w', r) \<longrightarrow>
       P w' \<and> (r = None \<longrightarrow> P (KVRecordStore_deleteRecord C w' i))"
    and units: "\<forall>w. P w \<longrightarrow> P (beginUnitOfWork C w) \<and> P (commitUnitOfWork C w) \<and> P (endUnitOfWork C w)"
    and inv: "P (base s)"
    by blast+
  show "P (base (fst (deleteRecord C s dl)))"
    by (rule deleteRecord_guarded [OF cb guard inv])
  show "P (base (fst (deleteAsNeeded C s)))"
    using inv deleteAsNeeded_loop_guarded [OF cb guard inv]
    by (simp add: deleteAsNeeded_def split: outcome.splits)
  show "P (base (fst (temp_cappedTruncateAfter C s endLoc inclusive)))"
    using inv temp_cappedTruncateAfter_loop_guarded [OF cb guard units inv]
    by (simp add: temp_cappedTruncateAfter_def split: outcome.splits)
qed

text \<open>
  With records 1, 2 and 3 and a callback that rejects the deletion of record 2 only: record
  1 is deleted, directly or after the callback's consent; the deletion of record 2 throws
  and leaves the store alone, also inside the two loops; and record 2 is still there after
  an eviction pass over the 10-byte store and after a truncation from record 1 on.
\<close>

theorem deleteRecord_notifies_first_witness:
  "cappedDeleteCallback (sample_store [(1, ''aaaa''), (2, ''bbbb''), (3, ''cc'')] None False False []) = None \<and>
   deleteRecord ref_collaborators
     (sample_store [(1, ''aaaa''), (2, ''bbbb''), (3, ''cc'')] None False False []) 1 =
     (sample_store [(2, ''bbbb''), (3, ''cc'')] None False False [], Return ()) \<and>
   veto_only 2 [(1, ''aaaa''), (2, ''bbbb''), (3, ''cc'')] 2 =
     ([(1, ''aaaa''), (2, ''bbbb''), (3, ''cc'')], Some (Error (OtherErrorCode 1) ''deletion rejected'')) \<and>
   deleteRecord ref_collaborators
     (sample_store [(1, ''aaaa''), (2, ''bbbb''), (3, ''cc'')] (Some (veto_only 2)) False False []) 2 =
     (sample_store [(1, ''aaaa''), (2, ''bbbb''), (3, ''cc'')] (Some (veto_only 2)) False False [],
      Throw (UserException (Error (OtherErrorCode 1) ''deletion rejected''))) \<and>
   veto_only 2 [(1, ''aaaa''), (2, ''bbbb''), (3, ''cc'')] 1 =
     ([(1, ''aaaa''), (2, ''bbbb''), (3, ''cc'')], None) \<and>
   deleteRecord ref_collaborators
     (sample_store [(1, ''aaaa''), (2, ''bbbb''), (3, ''cc'')] (Some (veto_only 2)) False False []) 1 =
     (sample_store [(2, ''bbbb''), (3, ''cc'')] (Some (veto_only 2)) False False [], Return ()) \<and>
   needsDelete ref_collaborators
     (sample_store [(2, ''bbbb''), (3, ''cc'')] (Some (veto_only 2)) False False []) \<and>
   deleteAsNeeded_loop ref_collaborators
     (sample_store [(2, ''bbbb''), (3, ''cc'')] (Some (veto_only 2)) False False []) [2, 3] =
     (sample_store [(2, ''bbbb''), (3, ''cc'')] (Some (veto_only 2)) False False [],
      Throw (UserException (Error (OtherErrorCode 1) ''deletion rejected''))) \<and>
   temp_cappedTruncateAfter_loop ref_collaborators
     (sample_store [(2, ''bbbb''), (3, ''cc'')] (Some (veto_only 2)) False False []) 2 True [2, 3] =
     (sample_store [(2, ''bbbb''), (3, ''cc'')] (Some (veto_only 2)) False False [],
      Throw (UserException (Error (OtherErrorCode 1) ''deletion rejected''))) \<and>
   (2, ''bbbb'') \<in> set (base
     (sample_store [(1, ''aaaa''), (2, ''bbbb''), (3, ''cc'')] (Some (veto_only 2)) False False [])) \<and>
   (2, ''bbbb'') \<in> set (base (fst (deleteAsNeeded ref_collaborators
     (sample_store [(1, ''aaaa''), (2, ''bbbb''), (3, ''cc'')] (Some (veto_only 2)) False False [])))) \<and>
   (2, ''bbbb'') \<in> set (base (fst (temp_cappedTruncateAfter ref_collaborators
     (sample_store [(1, ''aaaa''), (2, ''bbbb''), (3, ''cc'')] (Some (veto_only 2)) False False []) 1 True)))"
proof -
  let ?d = "[(1, ''aaaa''), (2, ''bbbb''), (3, ''cc'')] :: dictionary"
  let ?e = "Error (OtherErrorCode 1) ''deletion rejected''"
  let ?free = "sample_store ?d None False False []"
  let ?s = "sample_store ?d (Some (veto_only 2)) False False []"
  let ?s2 = "sample_store [(2, ''bbbb''), (3, ''cc'')] (Some (veto_only 2)) False False []"
  let ?P = "\<lambda>d :: dictionary. (2, ''bbbb'') \<in> set d"
  have rejects: "veto_only 2 ?d 2 = (?d, Some ?e)" and accepts: "veto_only 2 ?d 1 = (?d, None)"
    by (simp_all add: veto_only_def)
  have direct: "deleteRecord ref_collaborators ?free 1 =
      (sample_store [(2, ''bbbb''), (3, ''cc'')] None False False [], Return ())"
    using deleteRecord_notifies_first [where C = ref_collaborators and s = ?free and dl = 1]
    by (simp add: ref_deleteRecord_def)
  have rejected: "deleteRecord ref_collaborators ?s 2 = (?s, Throw (UserException ?e))"
    using deleteRecord_notifies_first [where C = ref_collaborators and s = ?s and dl = 2
        and cb = "veto_only 2" and w = ?d and e = ?e] rejects
    by simp
  have accepted: "deleteRecord ref_collaborators ?s 1 = (?s2, Return ())"
    using deleteRecord_notifies_first [where C = ref_collaborators and s = ?s and dl = 1
        and cb = "veto_only 2" and w = ?d] accepts
    by (simp add: ref_deleteRecord_def)
  have over: "needsDelete ref_collaborators ?s2"
    by (simp add: needsDelete_def ref_dataSize_def)
  have rejected2: "deleteRecord ref_collaborators ?s2 2 = (?s2, Throw (UserException ?e))"
    by (simp add: deleteRecord_def veto_only_def)
  have evict: "deleteAsNeeded_loop ref_collaborators ?s2 [2, 3] = (?s2, Throw (UserException ?e))"
    using deleteRecord_notifies_first [where C = ref_collaborators and s = ?s2 and dl = 2
        and s' = ?s2 and x = "UserException ?e" and iter = "[3]"] over rejected2
    by blast
  have truncate: "temp_cappedTruncateAfter_loop ref_collaborators ?s2 2 True [2, 3] =
      (?s2, Throw (UserException ?e))"
    using deleteRecord_notifies_first [where C = ref_collaborators and s = ?s2 and dl = 2
        and s' = ?s2 and x = "UserException ?e" and iter = "[3]" and inclusive = True
        and endLoc = 2] rejected2
    by simp
  have guard: "\<forall>w i w' r. ?P w \<and> veto_only 2 w i = (w', r) \<longrightarrow>
       ?P w' \<and> (r = None \<longrightarrow> ?P (KVRecordStore_deleteRecord ref_collaborators w' i))"
    by (auto simp: veto_only_def ref_deleteRecord_def split: if_splits)
  have units: "\<forall>w. ?P w \<longrightarrow> ?P (beginUnitOfWork ref_collaborators w) \<and>
      ?P (commitUnitOfWork ref_collaborators w) \<and> ?P (endUnitOfWork ref_collaborators w)"
    by simp
  have present: "?P (base ?s)"
    by simp
  have kept: "?P (base (fst (deleteAsNeeded ref_collaborators ?s))) \<and>
      ?P (base (fst (temp_cappedTruncateAfter ref_collaborators ?s 1 True)))"
    using deleteRecord_notifies_first [where C = ref_collaborators and s = ?s
        and cb = "veto_only 2" and P = ?P and endLoc = 1 and inclusive = True]
      guard units present
    by (simp only: sample_store_simps)
  show ?thesis
    using rejects accepts direct rejected accepted over evict truncate present kept
    by (simp only: sample_store_simps)
qed

end
